theory Spec2Isabelle
  imports Complex_Main "HOL-Library.Multiset"
begin

section \<open>Data model\<close>

text \<open>
  The controller \<^verbatim>\<open>backend/src/controllers/task.controller.ts\<close> works on two entities
  and on the authenticated actor of a request. It imports their declarations from
  \<^verbatim>\<open>../entities/Task\<close>, \<^verbatim>\<open>../entities/User\<close> and \<^verbatim>\<open>../utils/auth\<close>.
\<close>

text \<open>
  Modelled from the spec: the entity class \<^verbatim>\<open>User\<close> (\<^verbatim>\<open>entities/User.ts\<close>), of which
  the controller reads the identifier only. Identifiers are UUID strings.
\<close>

record user =
  id_user :: string
  email :: string

text \<open>
  Modelled from the spec: the type \<^verbatim>\<open>AuthTokenPayload\<close> (\<^verbatim>\<open>utils/auth.ts\<close>), the actor
  context \<^verbatim>\<open>{ userId, roles: string[] }\<close> that the authentication middleware attaches
  to a request.
\<close>

record AuthTokenPayload =
  userId :: string
  roles :: "string list"

text \<open>
  Modelled from the spec: the entity class \<^verbatim>\<open>Task\<close> (\<^verbatim>\<open>entities/Task.ts\<close>) with the
  fields of its JSON shape that the controller reads or writes (\<^verbatim>\<open>task.owner.id\<close>,
  \<^verbatim>\<open>task.title\<close>, \<^verbatim>\<open>task.description\<close>, \<^verbatim>\<open>task.status\<close>, \<^verbatim>\<open>task.assignees\<close>) or sorts
  by (\<^verbatim>\<open>task.createdAt\<close>). The description is optional, the status is the string the
  controller compares and stores, the assignees are the array \<^verbatim>\<open>User[]\<close>, and the
  creation time is a number of milliseconds. The time stamp that the persistence layer
  refreshes on every save is left out: no function of the controller reads or writes it.
\<close>

record task =
  id_task :: string
  title :: string
  description :: "string option"
  status :: string
  owner :: user
  assignees :: "user list"
  createdAt :: int

section \<open>Permission helpers\<close>

text \<open>
  \<^verbatim>\<open>Array.prototype.includes\<close> walks the array and compares each element with the
  argument; on strings the comparison is equality.
\<close>

fun includes_arr :: "'a list \<Rightarrow> 'a \<Rightarrow> bool" where
  "includes_arr [] x = False"
| "includes_arr (y # ys) x = (if y = x then True else includes_arr ys x)"

definition hasRole :: "AuthTokenPayload \<Rightarrow> string \<Rightarrow> bool" where
  "hasRole usr role = includes_arr (roles usr) role"

definition isOwner :: "AuthTokenPayload \<Rightarrow> task \<Rightarrow> bool" where
  "isOwner usr tsk = (id_user (owner tsk) = userId usr)"

definition canEditTask :: "AuthTokenPayload \<Rightarrow> task \<Rightarrow> bool" where
  "canEditTask usr tsk =
     (if hasRole usr ''admin'' \<or> hasRole usr ''manager'' then True
      else isOwner usr tsk)"

definition canDeleteTask :: "AuthTokenPayload \<Rightarrow> task \<Rightarrow> bool" where
  "canDeleteTask usr tsk =
     (if hasRole usr ''admin'' then True
      else if hasRole usr ''manager'' \<or> hasRole usr ''user'' then isOwner usr tsk
      else False)"

section \<open>Persistence\<close>

text \<open>
  The controller reaches the database through two repositories. The model keeps both
  tables as lists of rows, each in the order in which the database hands its rows out
  when no order is asked for (which need not be the order of insertion); every operation
  the controller calls is a function on them.
  \<^verbatim>\<open>findOne({ where: { id } })\<close> gives the row with that key or nothing,
  \<^verbatim>\<open>findBy({ id: In(ids) })\<close> gives the users whose key is among \<open>ids\<close>, in the order
  in which the database hands them out and not in the order of \<open>ids\<close>, \<^verbatim>\<open>save\<close> writes
  the entity over the row with its key (a new key is appended), and \<^verbatim>\<open>remove\<close> deletes the
  row. The permission helpers read \<^verbatim>\<open>task.owner.id\<close> of what \<^verbatim>\<open>findOne\<close> returns, so the
  row comes back with its owner. A failing database (the \<^verbatim>\<open>catch\<close> branches answering
  500 in \<^verbatim>\<open>update\<close> and \<^verbatim>\<open>remove\<close>) has no counterpart: the tables of the model always
  answer.
\<close>

record db =
  taskRepository :: "task list"
  userRepository :: "user list"

definition findOne :: "db \<Rightarrow> string \<Rightarrow> task option" where
  "findOne d taskId = find (\<lambda>row. id_task row = taskId) (taskRepository d)"

definition findBy :: "db \<Rightarrow> string list \<Rightarrow> user list" where
  "findBy d ids = filter (\<lambda>u. includes_arr ids (id_user u)) (userRepository d)"

definition save :: "db \<Rightarrow> task \<Rightarrow> db" where
  "save d tsk =
     (case findOne d (id_task tsk) of
        None \<Rightarrow> d\<lparr>taskRepository := taskRepository d @ [tsk]\<rparr>
      | Some _ \<Rightarrow>
          d\<lparr>taskRepository :=
              map (\<lambda>row. if id_task row = id_task tsk then tsk else row) (taskRepository d)\<rparr>)"

definition remove_task :: "db \<Rightarrow> task \<Rightarrow> db" where
  "remove_task d tsk =
     d\<lparr>taskRepository := filter (\<lambda>row. id_task row \<noteq> id_task tsk) (taskRepository d)\<rparr>"

section \<open>Requests, responses and the calls a handler makes\<close>

text \<open>
  A request carries the actor that the authentication middleware attached (\<^verbatim>\<open>req.user\<close>,
  possibly missing), the path parameter \<^verbatim>\<open>req.params.id\<close> and the validated body of
  \<^verbatim>\<open>UpdateTaskDto\<close>, each of whose four properties may be absent (\<open>None\<close>). A JSON
  \<^verbatim>\<open>null\<close> in the body is outside the model.

  A handler answers with a status code and a payload; in the pagination block
  \<open>totalPages\<close> is \<open>None\<close> where the JSON text says \<^verbatim>\<open>null\<close>. Next to the answer and the tables
  it leaves behind, the model records the calls the handler made, in order, to the
  repositories and to the permission helpers; this makes "is never reached" and
  "no save is performed" statements about a value.
\<close>

record updateBody =
  b_title :: "string option"
  b_description :: "string option"
  b_status :: "string option"
  b_assigneeIds :: "string list option"

record request =
  req_user :: "AuthTokenPayload option"
  req_params_id :: string
  req_body :: updateBody

record pagination =
  page :: int
  limit :: int
  total :: int
  totalPages :: "int option"

datatype payload =
    Message string
  | TaskJson task
  | TaskPage "task list" pagination
  | NoContent

datatype response = Response (statusCode: nat) (body: payload)

datatype call =
    FindOneTask string
  | CanEdit AuthTokenPayload task
  | CanDelete AuthTokenPayload task
  | FindByUsers "string list"
  | Save task
  | Remove task

record result =
  res :: response
  calls :: "call list"
  after :: db

section \<open>The handlers \<^verbatim>\<open>update\<close> and \<^verbatim>\<open>remove\<close>\<close>

text \<open>
  In JavaScript every array is truthy, the empty one too; \<^verbatim>\<open>if (assigneeIds)\<close> tests
  an array once the destructuring default \<^verbatim>\<open>assigneeIds = []\<close> has replaced a missing
  property.
\<close>

definition truthy_array :: "'a list \<Rightarrow> bool" where
  "truthy_array xs = True"

definition update :: "db \<Rightarrow> request \<Rightarrow> result" where
  "update d req =
     (let taskId = req_params_id req;
          assigneeIds = (case b_assigneeIds (req_body req) of None \<Rightarrow> [] | Some ids \<Rightarrow> ids)
      in case req_user req of
           None \<Rightarrow> \<lparr>res = Response 401 (Message ''Unauthorized''), calls = [], after = d\<rparr>
         | Some usr \<Rightarrow>
             if taskId = [] then
               \<lparr>res = Response 400 (Message ''Task id is required''), calls = [], after = d\<rparr>
             else
               (case findOne d taskId of
                  None \<Rightarrow>
                    \<lparr>res = Response 404 (Message ''Task not found''),
                     calls = [FindOneTask taskId], after = d\<rparr>
                | Some tsk \<Rightarrow>
                    if \<not> canEditTask usr tsk then
                      \<lparr>res = Response 403
                         (Message ''You do not have permission to edit this task''),
                       calls = [FindOneTask taskId, CanEdit usr tsk], after = d\<rparr>
                    else
                      let t1 = (case b_title (req_body req) of
                                  None \<Rightarrow> tsk | Some v \<Rightarrow> tsk\<lparr>title := v\<rparr>);
                          t2 = (case b_description (req_body req) of
                                  None \<Rightarrow> t1 | Some v \<Rightarrow> t1\<lparr>description := Some v\<rparr>);
                          t3 = (case b_status (req_body req) of
                                  None \<Rightarrow> t2 | Some v \<Rightarrow> t2\<lparr>status := v\<rparr>);
                          lookups = (if truthy_array assigneeIds \<and> assigneeIds \<noteq> []
                                     then [FindByUsers assigneeIds] else []);
                          t4 = (if truthy_array assigneeIds then
                                  t3\<lparr>assignees :=
                                       (if assigneeIds \<noteq> [] then findBy d assigneeIds else [])\<rparr>
                                else t3)
                      in \<lparr>res = Response 200 (TaskJson t4),
                          calls = [FindOneTask taskId, CanEdit usr tsk] @ lookups @ [Save t4],
                          after = save d t4\<rparr>))"

definition remove :: "db \<Rightarrow> request \<Rightarrow> result" where
  "remove d req =
     (let taskId = req_params_id req
      in case req_user req of
           None \<Rightarrow> \<lparr>res = Response 401 (Message ''Unauthorized''), calls = [], after = d\<rparr>
         | Some usr \<Rightarrow>
             if taskId = [] then
               \<lparr>res = Response 400 (Message ''Task id is required''), calls = [], after = d\<rparr>
             else
               (case findOne d taskId of
                  None \<Rightarrow>
                    \<lparr>res = Response 404 (Message ''Task not found''),
                     calls = [FindOneTask taskId], after = d\<rparr>
                | Some tsk \<Rightarrow>
                    if \<not> canDeleteTask usr tsk then
                      \<lparr>res = Response 403
                         (Message ''You do not have permission to delete this task''),
                       calls = [FindOneTask taskId, CanDelete usr tsk], after = d\<rparr>
                    else
                      \<lparr>res = Response 204 NoContent,
                       calls = [FindOneTask taskId, CanDelete usr tsk, Remove tsk],
                       after = remove_task d tsk\<rparr>))"

section \<open>The handler \<^verbatim>\<open>list\<close>\<close>

subsection \<open>Query parameters\<close>

text \<open>
  \<^verbatim>\<open>req.query\<close> is read by destructuring with defaults; a default replaces a missing
  parameter only. \<^verbatim>\<open>status\<close> may be given once or several times
  (\<^verbatim>\<open>Array.isArray(status) ? status : [status]\<close>); the other parameters are modelled as
  given at most once. \<^verbatim>\<open>if (x)\<close> on a string is false for the empty string only, and true
  on any array.
\<close>

datatype qvalue = Single string | Repeated "string list"

record query =
  q_search :: "string option"
  q_status :: "qvalue option"
  q_assigneeId :: "string option"
  q_page :: "string option"
  q_limit :: "string option"
  q_sortBy :: "string option"
  q_sortOrder :: "string option"

definition or_default :: "'a option \<Rightarrow> 'a \<Rightarrow> 'a" where
  "or_default v dflt = (case v of None \<Rightarrow> dflt | Some x \<Rightarrow> x)"

definition truthy_string :: "string option \<Rightarrow> bool" where
  "truthy_string v = (case v of None \<Rightarrow> False | Some s \<Rightarrow> s \<noteq> [])"

definition truthy_qvalue :: "qvalue option \<Rightarrow> bool" where
  "truthy_qvalue v =
     (case v of None \<Rightarrow> False | Some (Single s) \<Rightarrow> s \<noteq> [] | Some (Repeated ss) \<Rightarrow> True)"

definition statusArray :: "qvalue option \<Rightarrow> string list" where
  "statusArray v =
     (case v of None \<Rightarrow> [] | Some (Single s) \<Rightarrow> [s] | Some (Repeated ss) \<Rightarrow> ss)"

subsection \<open>Numbers\<close>

text \<open>
  A JavaScript number is a double. Every number the handler computes has an integer
  value, so a number of the model is \<^verbatim>\<open>NaN\<close>, an infinity (of either sign: the handler
  treats both alike) or an integer that is a double. \<open>round_double\<close> takes an integer to
  the nearest double, a tie to the one with the even significand, and beyond the
  largest double to infinity: \<open>halvings\<close> counts the low bits that do not fit the 53 of
  the significand, \<open>q\<close> is what is kept and \<open>r\<close> what is cut off.
\<close>

datatype number = NaN | Infinity | Finite int

function halvings :: "nat \<Rightarrow> nat" where
  "halvings n = (if n < 2 ^ 53 then 0 else Suc (halvings (n div 2)))"
  by pat_completeness auto
termination
  by (relation "measure (\<lambda>n. n)") auto

declare halvings.simps [simp del]

definition round_double :: "int \<Rightarrow> number" where
  "round_double n =
     (let m = nat \<bar>n\<bar>;
          e = halvings m;
          q = m div 2 ^ e;
          r = m mod 2 ^ e;
          kept = (if 2 ^ e < 2 * r \<or> (2 * r = 2 ^ e \<and> odd q) then q + 1 else q);
          v = kept * 2 ^ e
      in if 2 ^ 1024 \<le> v then Infinity
         else Finite (if n < 0 then - int v else int v))"

text \<open>\<^verbatim>\<open>a - 1\<close> and \<^verbatim>\<open>a * b\<close> on such numbers.\<close>

definition minus_one :: "number \<Rightarrow> number" where
  "minus_one a = (case a of Finite x \<Rightarrow> round_double (x - 1) | NaN \<Rightarrow> NaN | Infinity \<Rightarrow> Infinity)"

definition js_times :: "number \<Rightarrow> number \<Rightarrow> number" where
  "js_times a b =
     (case a of
        NaN \<Rightarrow> NaN
      | Infinity \<Rightarrow>
          (case b of NaN \<Rightarrow> NaN | Infinity \<Rightarrow> Infinity
           | Finite y \<Rightarrow> if y = 0 then NaN else Infinity)
      | Finite x \<Rightarrow>
          (case b of NaN \<Rightarrow> NaN | Infinity \<Rightarrow> if x = 0 then NaN else Infinity
           | Finite y \<Rightarrow> round_double (x * y)))"

text \<open>
  \<^verbatim>\<open>parseInt(s, 10)\<close> skips leading white space, reads an optional sign and then the
  longest run of decimal digits, and returns the double nearest to the integer they
  write; without a digit the result is \<^verbatim>\<open>NaN\<close>.
\<close>

definition is_space :: "char \<Rightarrow> bool" where
  "is_space c = includes_arr [CHR '' '', CHR 0x09, CHR 0x0A, CHR 0x0B, CHR 0x0C, CHR 0x0D] c"

definition digit_of :: "char \<Rightarrow> nat option" where
  "digit_of c =
     map_of [(CHR ''0'', 0), (CHR ''1'', 1), (CHR ''2'', 2), (CHR ''3'', 3), (CHR ''4'', 4),
             (CHR ''5'', 5), (CHR ''6'', 6), (CHR ''7'', 7), (CHR ''8'', 8), (CHR ''9'', 9)] c"

fun digits :: "string \<Rightarrow> nat option \<Rightarrow> nat option" where
  "digits [] acc = acc"
| "digits (c # cs) acc =
     (case digit_of c of
        None \<Rightarrow> acc
      | Some k \<Rightarrow> digits cs (Some (10 * (case acc of None \<Rightarrow> 0 | Some a \<Rightarrow> a) + k)))"

definition parseInt :: "string \<Rightarrow> number" where
  "parseInt s =
     (let t = dropWhile is_space s;
          neg = (case t of [] \<Rightarrow> False | c # _ \<Rightarrow> c = CHR ''-'');
          signed = (case t of [] \<Rightarrow> False | c # _ \<Rightarrow> c = CHR ''-'' \<or> c = CHR ''+'');
          u = (if signed then tl t else t)
      in case digits u None of
           None \<Rightarrow> NaN
         | Some n \<Rightarrow> round_double (if neg then - int n else int n))"

text \<open>
  \<^verbatim>\<open>Math.ceil(total / limitNum)\<close> on the count of a query and a finite page size. The
  quotient by zero is an infinity or \<^verbatim>\<open>NaN\<close>, which JSON writes as \<^verbatim>\<open>null\<close>. Otherwise the
  count is an integer below \<open>2^53\<close>; rounding the quotient of such a count to a double
  does not take it onto the integer below it, so the result is the ceiling of the exact
  quotient (\<open>div\<close> rounds down).
\<close>

definition ceil_div :: "int \<Rightarrow> int \<Rightarrow> int" where
  "ceil_div a b = - ((- a) div b)"

definition ceil_quotient :: "int \<Rightarrow> int \<Rightarrow> int option" where
  "ceil_quotient a b = (if b = 0 then None else Some (ceil_div a b))"

subsection \<open>The query builder\<close>

text \<open>
  The handler assembles its query with the ORM's query builder. A condition given to
  \<^verbatim>\<open>where\<close> or \<^verbatim>\<open>andWhere\<close> as a string is SQL text; the builder keeps the texts in order
  and, when it renders the \<^verbatim>\<open>WHERE\<close> clause, joins them with \<^verbatim>\<open>AND\<close> as they are, without
  putting parentheses around any of them. The model keeps the clause as the sequence of
  its tokens: the four comparisons the handler uses and the two connectives.
  \<^verbatim>\<open>where\<close> replaces the clause, \<^verbatim>\<open>andWhere\<close> appends to it (the first condition of a
  clause gets no connective). \<^verbatim>\<open>skip\<close> and \<^verbatim>\<open>take\<close> store a number; they throw on
  \<^verbatim>\<open>NaN\<close>, so the builder of the model holds finite numbers (the handler, below, answers
  for the others).
\<close>

datatype predicate =
    TitleLike string
  | DescriptionLike string
  | StatusIn "string list"
  | AssigneeIdEq string

datatype token = Cond predicate | Or | And

record queryBuilder =
  wheres :: "token list"
  orderField :: string
  orderDir :: string
  skip_n :: int
  take_n :: int

definition createQueryBuilder :: queryBuilder where
  "createQueryBuilder =
     \<lparr>wheres = [], orderField = [], orderDir = [], skip_n = 0, take_n = 0\<rparr>"

definition where_qb :: "token list \<Rightarrow> queryBuilder \<Rightarrow> queryBuilder" where
  "where_qb cond qb = qb\<lparr>wheres := cond\<rparr>"

definition andWhere :: "token list \<Rightarrow> queryBuilder \<Rightarrow> queryBuilder" where
  "andWhere cond qb =
     qb\<lparr>wheres := (if wheres qb = [] then cond else wheres qb @ [And] @ cond)\<rparr>"

definition orderBy :: "string \<Rightarrow> string \<Rightarrow> queryBuilder \<Rightarrow> queryBuilder" where
  "orderBy field dir qb = qb\<lparr>orderField := field, orderDir := dir\<rparr>"

definition skip_qb :: "int \<Rightarrow> queryBuilder \<Rightarrow> queryBuilder" where
  "skip_qb n qb = qb\<lparr>skip_n := n\<rparr>"

definition take_qb :: "int \<Rightarrow> queryBuilder \<Rightarrow> queryBuilder" where
  "take_qb n qb = qb\<lparr>take_n := n\<rparr>"

subsection \<open>What the database does with the query\<close>

text \<open>
  Some things are the database engine's own and differ between the engines the
  application runs on. They are parameters of the model:
  \<^item> \<open>like\<close>: how \<^verbatim>\<open>LIKE\<close> compares a pattern with a text (case, escapes);
  \<^item> \<open>collate_le\<close>: how texts are ordered, for \<^verbatim>\<open>ORDER BY task.title\<close>;
  \<^item> \<open>key_le\<close>: how primary keys are ordered;
  \<^item> \<open>row_order\<close>: the order in which the engine takes up the rows it is about to sort,
    which is the order it leaves rows in that \<^verbatim>\<open>ORDER BY\<close> does not tell apart;
  \<^item> \<open>negative_paging\<close>: what a negative \<^verbatim>\<open>LIMIT\<close> or \<^verbatim>\<open>OFFSET\<close> means: an error (\<open>None\<close>)
    or the limit, if any, and the offset used in its place.
\<close>

record engine =
  like :: "string \<Rightarrow> string \<Rightarrow> bool"
  collate_le :: "string \<Rightarrow> string \<Rightarrow> bool"
  key_le :: "string \<Rightarrow> string \<Rightarrow> bool"
  row_order :: "task list \<Rightarrow> task list"
  negative_paging :: "int \<Rightarrow> int \<Rightarrow> (nat option \<times> nat) option"

text \<open>
  The query joins each task with its assignees (\<^verbatim>\<open>leftJoinAndSelect\<close>): a task with
  assignees gives one row per assignee, a task without gives one row whose assignee is
  \<^verbatim>\<open>NULL\<close>. (The joins with the owner and the attachments add nothing the \<^verbatim>\<open>WHERE\<close> clause
  looks at.) A comparison with \<^verbatim>\<open>NULL\<close> is not true.
\<close>

definition joined_rows :: "task \<Rightarrow> user option list" where
  "joined_rows tsk = (if assignees tsk = [] then [None] else map Some (assignees tsk))"

fun holds :: "engine \<Rightarrow> task \<Rightarrow> user option \<Rightarrow> predicate \<Rightarrow> bool" where
  "holds e tsk a (TitleLike pat) = like e pat (title tsk)"
| "holds e tsk a (DescriptionLike pat) =
     (case description tsk of None \<Rightarrow> False | Some text \<Rightarrow> like e pat text)"
| "holds e tsk a (StatusIn ss) = includes_arr ss (status tsk)"
| "holds e tsk a (AssigneeIdEq uid) =
     (case a of None \<Rightarrow> False | Some u \<Rightarrow> id_user u = uid)"

text \<open>
  SQL reads a clause without parentheses with \<^verbatim>\<open>AND\<close> binding tighter than \<^verbatim>\<open>OR\<close>: the
  clause is a disjunction of conjunctions. \<open>eval_where\<close> walks the tokens with the value
  of the conjunction read so far; an empty clause filters nothing.
\<close>

fun eval_where :: "(predicate \<Rightarrow> bool) \<Rightarrow> token list \<Rightarrow> bool \<Rightarrow> bool" where
  "eval_where h [] acc = acc"
| "eval_where h (Cond p # ts) acc = eval_where h ts (acc \<and> h p)"
| "eval_where h (And # ts) acc = eval_where h ts acc"
| "eval_where h (Or # ts) acc = (acc \<or> eval_where h ts True)"

text \<open>
  A task is selected when one of its rows passes the clause, and it is delivered with
  the assignees of the rows that passed.
\<close>

definition select_task :: "engine \<Rightarrow> queryBuilder \<Rightarrow> task \<Rightarrow> task option" where
  "select_task e qb tsk =
     (let passed = filter (\<lambda>a. eval_where (holds e tsk a) (wheres qb) True) (joined_rows tsk)
      in if passed = [] then None
         else Some (tsk\<lparr>assignees := List.map_filter (\<lambda>a. a) passed\<rparr>))"

definition selected :: "engine \<Rightarrow> queryBuilder \<Rightarrow> db \<Rightarrow> task list" where
  "selected e qb d = List.map_filter (select_task e qb) (taskRepository d)"

text \<open>
  \<^verbatim>\<open>ORDER BY\<close> with the column and direction of the builder: \<open>task_le\<close> compares two
  tasks by the column, and \<open>in_order\<close> sorts by it, leaving rows with equal keys as the
  engine took them up.
\<close>

definition task_le :: "engine \<Rightarrow> queryBuilder \<Rightarrow> task \<Rightarrow> task \<Rightarrow> bool" where
  "task_le e qb x y =
     (if orderField qb = ''task.title'' then
        (if orderDir qb = ''ASC'' then collate_le e (title x) (title y)
         else collate_le e (title y) (title x))
      else
        (if orderDir qb = ''ASC'' then createdAt x \<le> createdAt y
         else createdAt y \<le> createdAt x))"

fun insert_by :: "('a \<Rightarrow> 'a \<Rightarrow> bool) \<Rightarrow> 'a \<Rightarrow> 'a list \<Rightarrow> 'a list" where
  "insert_by le x [] = [x]"
| "insert_by le x (y # ys) = (if le x y then x # y # ys else y # insert_by le x ys)"

fun sort_by :: "('a \<Rightarrow> 'a \<Rightarrow> bool) \<Rightarrow> 'a list \<Rightarrow> 'a list" where
  "sort_by le [] = []"
| "sort_by le (x # xs) = insert_by le x (sort_by le xs)"

definition in_order :: "engine \<Rightarrow> queryBuilder \<Rightarrow> task list \<Rightarrow> task list" where
  "in_order e qb rows = sort_by (task_le e qb) (row_order e rows)"

text \<open>
  With a \<^verbatim>\<open>skip\<close> or a \<^verbatim>\<open>take\<close> on a query with joins the ORM first asks for the keys of
  the page, ordering by the builder's column and then by the primary key, ascending, and
  putting \<^verbatim>\<open>LIMIT\<close> and \<^verbatim>\<open>OFFSET\<close> on that query; \<open>paged_le\<close> is this order. It then loads
  the tasks with these keys by the original query, which orders by the builder's column
  alone.
\<close>

definition paged_le :: "engine \<Rightarrow> queryBuilder \<Rightarrow> task \<Rightarrow> task \<Rightarrow> bool" where
  "paged_le e qb x y =
     (if task_le e qb x y \<and> task_le e qb y x then key_le e (id_task x) (id_task y)
      else task_le e qb x y)"

text \<open>
  The builder writes \<^verbatim>\<open>LIMIT\<close> for a \<^verbatim>\<open>take\<close> and \<^verbatim>\<open>OFFSET\<close> for a \<^verbatim>\<open>skip\<close> other than
  zero. Row counts are 64-bit integers to the engines: a number from \<open>2^63\<close> on is
  rejected. Negative numbers are the engine's to read.
\<close>

definition paging :: "engine \<Rightarrow> int \<Rightarrow> int \<Rightarrow> (nat option \<times> nat) option" where
  "paging e lm off =
     (if 2 ^ 63 \<le> lm \<or> 2 ^ 63 \<le> off then None
      else if lm < 0 \<or> off < 0 then negative_paging e lm off
      else Some (if lm = 0 then None else Some (nat lm), nat off))"

text \<open>
  \<^verbatim>\<open>getManyAndCount\<close> gives the tasks and the number of tasks the clause selects, or
  nothing when the engine rejects the query (an exception in the handler). When
  \<^verbatim>\<open>skip\<close> and \<^verbatim>\<open>take\<close> are both zero the ORM runs the query as it is, without a page.
\<close>

definition getManyAndCount :: "engine \<Rightarrow> db \<Rightarrow> queryBuilder \<Rightarrow> (task list \<times> nat) option" where
  "getManyAndCount e d qb =
     (let sel = selected e qb d
      in if skip_n qb = 0 \<and> take_n qb = 0 then Some (in_order e qb sel, length sel)
         else
           (case paging e (take_n qb) (skip_n qb) of
              None \<Rightarrow> None
            | Some (lm, off) \<Rightarrow>
                let rest = drop off (sort_by (paged_le e qb) sel);
                    page = (case lm of None \<Rightarrow> rest | Some n \<Rightarrow> take n rest)
                in Some (in_order e qb page, length sel)))"

subsection \<open>The handler\<close>

text \<open>
  \<open>list_query\<close> is the chain of builder calls up to \<^verbatim>\<open>orderBy\<close>, with the two branches of
  the source: with a search term the clause starts from the text
  \<^verbatim>\<open>task.title LIKE :search OR task.description LIKE :search\<close>; without one it starts
  from the status condition, if any.
\<close>

definition list_query :: "query \<Rightarrow> queryBuilder" where
  "list_query q =
     (let search = or_default (q_search q) [];
          status = q_status q;
          assigneeId = q_assigneeId q;
          sortBy = or_default (q_sortBy q) ''createdAt'';
          sortOrder = or_default (q_sortOrder q) ''DESC''
      in if search \<noteq> [] then
           let searchTerm = ''%'' @ search @ ''%'';
               qb1 = where_qb [Cond (TitleLike searchTerm), Or, Cond (DescriptionLike searchTerm)]
                       createQueryBuilder;
               qb2 = (if truthy_qvalue status
                      then andWhere [Cond (StatusIn (statusArray status))] qb1 else qb1);
               qb3 = (if truthy_string assigneeId
                      then andWhere [Cond (AssigneeIdEq (or_default assigneeId []))] qb2
                      else qb2);
               order = (if sortOrder = ''ASC'' then ''ASC'' else ''DESC'');
               sortField = (if sortBy = ''title'' then ''task.title'' else ''task.createdAt'')
           in orderBy sortField order qb3
         else
           let qb1 = (if truthy_qvalue status
                      then where_qb [Cond (StatusIn (statusArray status))] createQueryBuilder
                      else createQueryBuilder);
               qb2 = (if truthy_string assigneeId
                      then andWhere [Cond (AssigneeIdEq (or_default assigneeId []))] qb1
                      else qb1);
               order = (if sortOrder = ''ASC'' then ''ASC'' else ''DESC'');
               sortField = (if sortBy = ''title'' then ''task.title'' else ''task.createdAt'')
           in orderBy sortField order qb2)"

text \<open>
  The handler answers 200 with the tasks and the pagination block. Whatever goes wrong
  inside the \<^verbatim>\<open>try\<close> is answered 500: \<^verbatim>\<open>skip\<close> or \<^verbatim>\<open>take\<close> throwing on \<^verbatim>\<open>NaN\<close>, an infinity
  written into the SQL text, a query the engine rejects. Neither \<^verbatim>\<open>page\<close> nor \<^verbatim>\<open>limit\<close>
  is validated.
\<close>

definition failed_to_fetch :: response where
  "failed_to_fetch = Response 500 (Message ''Failed to fetch tasks'')"

definition list :: "engine \<Rightarrow> db \<Rightarrow> query \<Rightarrow> response" where
  "list e d q =
     (let pageNum = parseInt (or_default (q_page q) ''1'');
          limitNum = parseInt (or_default (q_limit q) ''10'');
          offset = js_times (minus_one pageNum) limitNum
      in case pageNum of
           NaN \<Rightarrow> failed_to_fetch
         | Infinity \<Rightarrow> failed_to_fetch
         | Finite pg \<Rightarrow>
             (case limitNum of
                NaN \<Rightarrow> failed_to_fetch
              | Infinity \<Rightarrow> failed_to_fetch
              | Finite lm \<Rightarrow>
                  (case offset of
                     NaN \<Rightarrow> failed_to_fetch
                   | Infinity \<Rightarrow> failed_to_fetch
                   | Finite off \<Rightarrow>
                       (case getManyAndCount e d (take_qb lm (skip_qb off (list_query q))) of
                          None \<Rightarrow> failed_to_fetch
                        | Some found \<Rightarrow>
                            Response 200
                              (TaskPage (fst found)
                                 \<lparr>page = pg, limit = lm, total = int (snd found),
                                  totalPages = ceil_quotient (int (snd found)) lm\<rparr>)))))"

subsection \<open>A sample engine\<close>

text \<open>
  \<^verbatim>\<open>LIKE\<close> with its two wildcards, comparing characters exactly; texts and keys ordered by
  character codes; rows taken up as the table lists them; and, as SQLite does, a negative
  \<^verbatim>\<open>LIMIT\<close> read as no limit and a negative \<^verbatim>\<open>OFFSET\<close> as none.
\<close>

fun sql_like :: "string \<Rightarrow> string \<Rightarrow> bool" where
  "sql_like [] s = (s = [])"
| "sql_like (p # ps) [] = (p = CHR ''%'' \<and> sql_like ps [])"
| "sql_like (p # ps) (c # cs) =
     (if p = CHR ''%'' then sql_like ps (c # cs) \<or> sql_like (p # ps) cs
      else (p = CHR ''_'' \<or> p = c) \<and> sql_like ps cs)"

fun codes_le :: "string \<Rightarrow> string \<Rightarrow> bool" where
  "codes_le [] ys = True"
| "codes_le (x # xs) [] = False"
| "codes_le (x # xs) (y # ys) =
     (if x = y then codes_le xs ys else (of_char x :: nat) < of_char y)"

definition sample_engine :: engine where
  "sample_engine =
     \<lparr>like = sql_like, collate_le = codes_le, key_le = codes_le,
      row_order = (\<lambda>rows. rows),
      negative_paging =
        (\<lambda>lm off. Some (if lm \<le> 0 then None else Some (nat lm),
                         if off < 0 then 0 else nat off))\<rparr>"

section \<open>What the specification asks of \<^verbatim>\<open>list\<close>\<close>

text \<open>
  The following definitions say in the words of the specification which tasks a request
  asks for and in which order; they do not mention the query builder. A filter is
  present when its parameter is given and not empty. A task matches when every present
  filter holds of it: the search term occurs in its title or its description, its
  status is among those given, the assignee given is among its assignees.
\<close>

definition search_given :: "query \<Rightarrow> bool" where
  "search_given q = (or_default (q_search q) [] \<noteq> [])"

definition status_given :: "query \<Rightarrow> bool" where
  "status_given q = truthy_qvalue (q_status q)"

definition assignee_given :: "query \<Rightarrow> bool" where
  "assignee_given q = truthy_string (q_assigneeId q)"

definition search_hit :: "engine \<Rightarrow> query \<Rightarrow> task \<Rightarrow> bool" where
  "search_hit e q tsk =
     (like e (''%'' @ or_default (q_search q) [] @ ''%'') (title tsk) \<or>
      (case description tsk of
         None \<Rightarrow> False
       | Some text \<Rightarrow> like e (''%'' @ or_default (q_search q) [] @ ''%'') text))"

definition matches_filters :: "engine \<Rightarrow> query \<Rightarrow> task \<Rightarrow> bool" where
  "matches_filters e q tsk =
     ((search_given q \<longrightarrow> search_hit e q tsk) \<and>
      (status_given q \<longrightarrow> status tsk \<in> set (statusArray (q_status q))) \<and>
      (assignee_given q \<longrightarrow>
         or_default (q_assigneeId q) [] \<in> id_user ` set (assignees tsk)))"

text \<open>
  A task found through the assignee filter is shown with the assignee asked for and
  without its other assignees.
\<close>

definition as_returned :: "query \<Rightarrow> task \<Rightarrow> task" where
  "as_returned q tsk =
     (if assignee_given q
      then tsk\<lparr>assignees :=
                filter (\<lambda>u. id_user u = or_default (q_assigneeId q) []) (assignees tsk)\<rparr>
      else tsk)"

definition matching_tasks :: "engine \<Rightarrow> db \<Rightarrow> query \<Rightarrow> task list" where
  "matching_tasks e d q = map (as_returned q) (filter (matches_filters e q) (taskRepository d))"

text \<open>
  The order asked for: by title when \<^verbatim>\<open>sortBy\<close> is \<^verbatim>\<open>title\<close> and by creation time
  otherwise, ascending when \<^verbatim>\<open>sortOrder\<close> is \<^verbatim>\<open>ASC\<close> and descending otherwise. The sorted
  matching sequence lists the matching tasks in this order, those with equal keys by
  ascending identifier.
\<close>

definition requested_le :: "engine \<Rightarrow> query \<Rightarrow> task \<Rightarrow> task \<Rightarrow> bool" where
  "requested_le e q x y =
     (if q_sortBy q = Some ''title'' then
        (if q_sortOrder q = Some ''ASC'' then collate_le e (title x) (title y)
         else collate_le e (title y) (title x))
      else
        (if q_sortOrder q = Some ''ASC'' then createdAt x \<le> createdAt y
         else createdAt y \<le> createdAt x))"

definition listing_le :: "engine \<Rightarrow> query \<Rightarrow> task \<Rightarrow> task \<Rightarrow> bool" where
  "listing_le e q x y =
     (if requested_le e q x y \<and> requested_le e q y x then key_le e (id_task x) (id_task y)
      else requested_le e q x y)"

definition sorted_matching :: "engine \<Rightarrow> db \<Rightarrow> query \<Rightarrow> task list" where
  "sorted_matching e d q = sort_by (listing_le e q) (matching_tasks e d q)"

definition total_preorder :: "('a \<Rightarrow> 'a \<Rightarrow> bool) \<Rightarrow> bool" where
  "total_preorder le =
     ((\<forall>x y. le x y \<or> le y x) \<and> (\<forall>x y z. le x y \<longrightarrow> le y z \<longrightarrow> le x z))"

definition tasks_of :: "response \<Rightarrow> task list" where
  "tasks_of r = (case body r of TaskPage ts pg \<Rightarrow> ts | _ \<Rightarrow> [])"

section \<open>Sample actors, tasks and requests\<close>

definition ann :: user where
  "ann = \<lparr>id_user = ''u-ann'', email = ''ann@example.org''\<rparr>"

definition bob :: user where
  "bob = \<lparr>id_user = ''u-bob'', email = ''bob@example.org''\<rparr>"

definition actor :: "user \<Rightarrow> string list \<Rightarrow> AuthTokenPayload" where
  "actor u rs = \<lparr>userId = id_user u, roles = rs\<rparr>"

definition task_of_bob :: task where
  "task_of_bob = \<lparr>id_task = ''t-1'', title = ''A'', description = Some ''B'',
     status = ''todo'', owner = bob, assignees = [ann], createdAt = 1000\<rparr>"

definition one_task_db :: db where
  "one_task_db = \<lparr>taskRepository = [task_of_bob], userRepository = [ann, bob]\<rparr>"

definition only_status :: "string \<Rightarrow> updateBody" where
  "only_status s = \<lparr>b_title = None, b_description = None, b_status = Some s,
     b_assigneeIds = None\<rparr>"

definition request_of :: "AuthTokenPayload option \<Rightarrow> string \<Rightarrow> updateBody \<Rightarrow> request" where
  "request_of usr taskId b = \<lparr>req_user = usr, req_params_id = taskId, req_body = b\<rparr>"

definition no_filters :: query where
  "no_filters = \<lparr>q_search = None, q_status = None, q_assigneeId = None, q_page = None,
     q_limit = None, q_sortBy = None, q_sortOrder = None\<rparr>"

definition numbered_task :: "nat \<Rightarrow> task" where
  "numbered_task n = \<lparr>id_task = replicate n CHR ''i'', title = ''T'', description = None,
     status = ''todo'', owner = bob, assignees = [], createdAt = int n\<rparr>"

definition db25 :: db where
  "db25 = \<lparr>taskRepository = map numbered_task [0 ..< 25], userRepository = [ann, bob]\<rparr>"

definition foo_task :: task where
  "foo_task = \<lparr>id_task = ''t-2'', title = ''foo'', description = None,
     status = ''todo'', owner = bob, assignees = [bob], createdAt = 2000\<rparr>"

definition foo_db :: db where
  "foo_db = \<lparr>taskRepository = [foo_task], userRepository = [ann, bob]\<rparr>"

definition dated_task :: "string \<Rightarrow> int \<Rightarrow> task" where
  "dated_task name stamp = \<lparr>id_task = name, title = name, description = None,
     status = ''todo'', owner = bob, assignees = [], createdAt = stamp\<rparr>"

definition three_dates_db :: db where
  "three_dates_db =
     \<lparr>taskRepository = [dated_task ''b'' 1000, dated_task ''a'' 3000, dated_task ''c'' 2000],
      userRepository = [ann, bob]\<rparr>"

definition odd_sort :: query where
  "odd_sort = no_filters\<lparr>q_sortBy := Some ''priority'', q_sortOrder := Some ''asc''\<rparr>"

definition third_page :: query where
  "third_page = no_filters\<lparr>q_page := Some ''3'', q_limit := Some ''10''\<rparr>"

definition fourth_page :: query where
  "fourth_page = no_filters\<lparr>q_page := Some ''4'', q_limit := Some ''10''\<rparr>"

definition odd_field :: query where
  "odd_field = no_filters\<lparr>q_sortBy := Some ''priority'', q_sortOrder := Some ''ASC''\<rparr>"

definition odd_direction :: query where
  "odd_direction = no_filters\<lparr>q_sortBy := Some ''title'', q_sortOrder := Some ''down''\<rparr>"

section \<open>Properties of the permission helpers\<close>

lemma includes_arr_set: "includes_arr xs x \<longleftrightarrow> x \<in> set xs"
  by (induction xs) auto

lemma hasRole_set: "hasRole usr role \<longleftrightarrow> role \<in> set (roles usr)"
  by (simp add: hasRole_def includes_arr_set)

text \<open>
  Claim C1. Whatever the actor's roles and identity and whatever the task, the edit
  decision is positive when the roles contain \<^verbatim>\<open>admin\<close> or \<^verbatim>\<open>manager\<close>; for every other
  role set it is positive exactly when the owner of the task is the actor.
\<close>

theorem canEdit_decision_table:
  "canEditTask usr tsk =
     (if ''admin'' \<in> set (roles usr) \<or> ''manager'' \<in> set (roles usr) then True
      else id_user (owner tsk) = userId usr)"
  by (simp add: canEditTask_def hasRole_set isOwner_def)

text \<open>
  Claim C2. The delete decision is positive when the roles contain \<^verbatim>\<open>admin\<close>; failing
  that, when they contain \<^verbatim>\<open>manager\<close> or \<^verbatim>\<open>user\<close>, it is positive exactly when the owner
  of the task is the actor; for every remaining role set it is negative.
\<close>

theorem canDelete_decision_table:
  "canDeleteTask usr tsk =
     (if ''admin'' \<in> set (roles usr) then True
      else if ''manager'' \<in> set (roles usr) \<or> ''user'' \<in> set (roles usr)
        then id_user (owner tsk) = userId usr
      else False)"
  by (simp add: canDeleteTask_def hasRole_set isOwner_def)

text \<open>
  Claim C7. Whoever may delete a task may also edit it, and for an actor who is a
  manager but not an administrator the delete right is strictly smaller: on a task of
  somebody else the edit decision is positive and the delete decision negative.
\<close>

theorem delete_at_most_edit:
  "(canDeleteTask usr tsk \<longrightarrow> canEditTask usr tsk) \<and>
   (''manager'' \<in> set (roles usr) \<and> ''admin'' \<notin> set (roles usr) \<and>
      id_user (owner tsk) \<noteq> userId usr \<longrightarrow>
        canEditTask usr tsk \<and> \<not> canDeleteTask usr tsk)"
  by (auto simp: canDeleteTask_def canEditTask_def hasRole_set isOwner_def
           split: if_splits)

theorem delete_at_most_edit_witness:
  "(canDeleteTask (actor bob [''user'']) task_of_bob \<and>
    canEditTask (actor bob [''user'']) task_of_bob) \<and>
   (''manager'' \<in> set (roles (actor ann [''manager''])) \<and>
    ''admin'' \<notin> set (roles (actor ann [''manager''])) \<and>
    id_user (owner task_of_bob) \<noteq> userId (actor ann [''manager'']) \<and>
    canEditTask (actor ann [''manager'']) task_of_bob \<and>
    \<not> canDeleteTask (actor ann [''manager'']) task_of_bob)"
proof -
  have del: "canDeleteTask (actor bob [''user'']) task_of_bob"
    by (simp add: canDeleteTask_def hasRole_def isOwner_def actor_def task_of_bob_def)
  have mgr: "''manager'' \<in> set (roles (actor ann [''manager''])) \<and>
      ''admin'' \<notin> set (roles (actor ann [''manager''])) \<and>
      id_user (owner task_of_bob) \<noteq> userId (actor ann [''manager''])"
    by (simp add: actor_def task_of_bob_def ann_def bob_def)
  show ?thesis
    using del mgr
      delete_at_most_edit [of "actor bob [''user'']" task_of_bob]
      delete_at_most_edit [of "actor ann [''manager'']" task_of_bob]
    by blast
qed

text \<open>
  Claim C9. An actor whose roles contain none of \<^verbatim>\<open>admin\<close>, \<^verbatim>\<open>manager\<close> and \<^verbatim>\<open>user\<close> may
  still edit the tasks they own, through the ownership fallback, but may delete no task
  at all, their own included.
\<close>

theorem roleless_actor_edits_but_never_deletes:
  assumes "''admin'' \<notin> set (roles usr)"
    and "''manager'' \<notin> set (roles usr)"
    and "''user'' \<notin> set (roles usr)"
  shows "(id_user (owner tsk) = userId usr \<longrightarrow> canEditTask usr tsk) \<and>
         \<not> canDeleteTask usr tsk'"
  using assms
  by (simp add: canDeleteTask_def canEditTask_def hasRole_set isOwner_def)

theorem roleless_actor_edits_but_never_deletes_witness:
  "''admin'' \<notin> set (roles (actor bob [''guest''])) \<and>
   ''manager'' \<notin> set (roles (actor bob [''guest''])) \<and>
   ''user'' \<notin> set (roles (actor bob [''guest''])) \<and>
   id_user (owner task_of_bob) = userId (actor bob [''guest'']) \<and>
   canEditTask (actor bob [''guest'']) task_of_bob \<and>
   \<not> canDeleteTask (actor bob [''guest'']) task_of_bob"
proof -
  have r: "''admin'' \<notin> set (roles (actor bob [''guest'']))"
      "''manager'' \<notin> set (roles (actor bob [''guest'']))"
      "''user'' \<notin> set (roles (actor bob [''guest'']))"
    by (simp_all add: actor_def)
  have own: "id_user (owner task_of_bob) = userId (actor bob [''guest''])"
    by (simp add: actor_def task_of_bob_def)
  show ?thesis
    using r own
      roleless_actor_edits_but_never_deletes [OF r, of task_of_bob task_of_bob]
    by blast
qed

section \<open>Properties of \<^verbatim>\<open>update\<close> and \<^verbatim>\<open>remove\<close>\<close>

text \<open>
  What a permitted update writes: the three scalar properties follow the body where it
  gives them and keep their value where it does not; key, owner and creation time are
  never touched; the assignees become the users the body names, and none when the body
  names none or has no \<^verbatim>\<open>assigneeIds\<close> at all.
\<close>

lemma update_permitted:
  assumes "req_user req = Some usr"
    and "req_params_id req \<noteq> []"
    and "findOne d (req_params_id req) = Some tsk"
    and "canEditTask usr tsk"
  shows "\<exists>tsk'. res (update d req) = Response 200 (TaskJson tsk') \<and>
      after (update d req) = save d tsk' \<and>
      title tsk' = or_default (b_title (req_body req)) (title tsk) \<and>
      description tsk' =
        (case b_description (req_body req) of None \<Rightarrow> description tsk | Some v \<Rightarrow> Some v) \<and>
      status tsk' = or_default (b_status (req_body req)) (status tsk) \<and>
      assignees tsk' =
        (case b_assigneeIds (req_body req) of None \<Rightarrow> [] | Some ids \<Rightarrow> findBy d ids) \<and>
      id_task tsk' = id_task tsk \<and> owner tsk' = owner tsk \<and> createdAt tsk' = createdAt tsk"
  using assms
  by (auto simp: update_def Let_def truthy_array_def or_default_def findBy_def
      split: option.splits)

text \<open>
  Claim C4 (an update changes only the properties the body provides, and leaves the
  assignees alone when \<^verbatim>\<open>assigneeIds\<close> is absent). The handler does not keep the
  assignees in that case. The destructuring default turns a missing \<^verbatim>\<open>assigneeIds\<close>
  into \<^verbatim>\<open>[]\<close>, the guard \<^verbatim>\<open>if (assigneeIds)\<close> is true on it, and the task is saved with
  no assignees: the owner of a task assigned to Ann sends \<^verbatim>\<open>{status: "done"}\<close> and the
  stored task loses Ann. Title and description, which the body does not mention either,
  stay.
\<close>

theorem update_without_assigneeIds_clears_assignees:
  "assignees task_of_bob = [ann] \<and>
   update one_task_db (request_of (Some (actor bob [''user''])) ''t-1'' (only_status ''done''))
     = \<lparr>res = Response 200 (TaskJson (task_of_bob\<lparr>status := ''done'', assignees := []\<rparr>)),
        calls = [FindOneTask ''t-1'', CanEdit (actor bob [''user'']) task_of_bob,
                 Save (task_of_bob\<lparr>status := ''done'', assignees := []\<rparr>)],
        after = \<lparr>taskRepository = [task_of_bob\<lparr>status := ''done'', assignees := []\<rparr>],
                 userRepository = [ann, bob]\<rparr>\<rparr>"
  by (simp add: update_def request_of_def only_status_def one_task_db_def findOne_def
      task_of_bob_def canEditTask_def hasRole_def isOwner_def actor_def bob_def ann_def
      truthy_array_def save_def Let_def)

text \<open>
  Claim C5. When the edit decision on the task found is negative, the handler answers
  403 with its message, leaves both tables as they were and has called nothing after
  the permission helper: no lookup of assignees and no save.
\<close>

theorem update_denied_changes_nothing:
  assumes "req_user req = Some usr"
    and "req_params_id req \<noteq> []"
    and "findOne d (req_params_id req) = Some tsk"
    and "\<not> canEditTask usr tsk"
  shows "res (update d req) =
           Response 403 (Message ''You do not have permission to edit this task'') \<and>
         after (update d req) = d \<and>
         calls (update d req) = [FindOneTask (req_params_id req), CanEdit usr tsk]"
  using assms by (simp add: update_def)

theorem update_denied_changes_nothing_witness:
  "req_user (request_of (Some (actor ann [''user''])) ''t-1'' (only_status ''done''))
     = Some (actor ann [''user'']) \<and>
   req_params_id (request_of (Some (actor ann [''user''])) ''t-1'' (only_status ''done'')) \<noteq> [] \<and>
   findOne one_task_db ''t-1'' = Some task_of_bob \<and>
   \<not> canEditTask (actor ann [''user'']) task_of_bob \<and>
   res (update one_task_db (request_of (Some (actor ann [''user''])) ''t-1'' (only_status ''done'')))
     = Response 403 (Message ''You do not have permission to edit this task'') \<and>
   after (update one_task_db (request_of (Some (actor ann [''user''])) ''t-1'' (only_status ''done'')))
     = one_task_db \<and>
   calls (update one_task_db (request_of (Some (actor ann [''user''])) ''t-1'' (only_status ''done'')))
     = [FindOneTask ''t-1'', CanEdit (actor ann [''user'']) task_of_bob]"
proof -
  let ?req = "request_of (Some (actor ann [''user''])) ''t-1'' (only_status ''done'')"
  have u: "req_user ?req = Some (actor ann [''user''])"
    and i: "req_params_id ?req \<noteq> []" and i': "req_params_id ?req = ''t-1''"
    by (simp_all add: request_of_def)
  have t: "findOne one_task_db (req_params_id ?req) = Some task_of_bob"
    by (simp add: request_of_def findOne_def one_task_db_def task_of_bob_def)
  have c: "\<not> canEditTask (actor ann [''user'']) task_of_bob"
    by (simp add: canEditTask_def hasRole_def isOwner_def actor_def task_of_bob_def
        ann_def bob_def)
  show ?thesis
    using u i t c update_denied_changes_nothing [OF u i t c]
    by (simp add: i')
qed

text \<open>
  Claim C8. In \<^verbatim>\<open>update\<close> and in \<^verbatim>\<open>remove\<close>: without an actor the answer is 401 and
  nothing has been called, the permission helper included; with an actor and an id (the
  routes \<^verbatim>\<open>/:id\<close> only match a non-empty one; an empty id would be answered 400 before
  the lookup) under which no task is stored, the answer is 404, the lookup is the only
  call and the tables are unchanged; and the permission helper is called only on the
  actor of the request and the task the lookup found.
\<close>

theorem early_rejections:
  "(req_user req = None \<longrightarrow>
      update d req = \<lparr>res = Response 401 (Message ''Unauthorized''), calls = [], after = d\<rparr> \<and>
      remove d req = \<lparr>res = Response 401 (Message ''Unauthorized''), calls = [], after = d\<rparr>) \<and>
   (req_user req \<noteq> None \<and> req_params_id req \<noteq> [] \<and> findOne d (req_params_id req) = None \<longrightarrow>
      update d req = \<lparr>res = Response 404 (Message ''Task not found''),
                      calls = [FindOneTask (req_params_id req)], after = d\<rparr> \<and>
      remove d req = \<lparr>res = Response 404 (Message ''Task not found''),
                      calls = [FindOneTask (req_params_id req)], after = d\<rparr>) \<and>
   (CanEdit usr tsk \<in> set (calls (update d req)) \<longrightarrow>
      req_user req = Some usr \<and> findOne d (req_params_id req) = Some tsk) \<and>
   (CanDelete usr tsk \<in> set (calls (remove d req)) \<longrightarrow>
      req_user req = Some usr \<and> findOne d (req_params_id req) = Some tsk)"
  by (auto simp: update_def remove_def Let_def split: option.splits if_splits)

theorem early_rejections_witness:
  "req_user (request_of None ''t-1'' (only_status ''done'')) = None \<and>
   (update one_task_db (request_of None ''t-1'' (only_status ''done'')) =
      \<lparr>res = Response 401 (Message ''Unauthorized''), calls = [], after = one_task_db\<rparr> \<and>
    remove one_task_db (request_of None ''t-1'' (only_status ''done'')) =
      \<lparr>res = Response 401 (Message ''Unauthorized''), calls = [], after = one_task_db\<rparr>) \<and>
   findOne one_task_db ''t-9'' = None \<and>
   (update one_task_db (request_of (Some (actor bob [''admin''])) ''t-9'' (only_status ''done'')) =
      \<lparr>res = Response 404 (Message ''Task not found''), calls = [FindOneTask ''t-9''],
       after = one_task_db\<rparr> \<and>
    remove one_task_db (request_of (Some (actor bob [''admin''])) ''t-9'' (only_status ''done'')) =
      \<lparr>res = Response 404 (Message ''Task not found''), calls = [FindOneTask ''t-9''],
       after = one_task_db\<rparr>) \<and>
   CanEdit (actor bob [''user'']) task_of_bob \<in>
     set (calls (update one_task_db
       (request_of (Some (actor bob [''user''])) ''t-1'' (only_status ''done'')))) \<and>
   CanDelete (actor bob [''user'']) task_of_bob \<in>
     set (calls (remove one_task_db
       (request_of (Some (actor bob [''user''])) ''t-1'' (only_status ''done'')))) \<and>
   (req_user (request_of (Some (actor bob [''user''])) ''t-1'' (only_status ''done''))
      = Some (actor bob [''user'']) \<and>
    findOne one_task_db ''t-1'' = Some task_of_bob)"
proof -
  let ?anon = "request_of None ''t-1'' (only_status ''done'')"
  let ?lost = "request_of (Some (actor bob [''admin''])) ''t-9'' (only_status ''done'')"
  let ?own = "request_of (Some (actor bob [''user''])) ''t-1'' (only_status ''done'')"
  have ids: "req_params_id ?lost = ''t-9''" "req_params_id ?own = ''t-1''"
    by (simp_all add: request_of_def)
  have a: "req_user ?anon = None"
    by (simp add: request_of_def)
  have none: "findOne one_task_db ''t-9'' = None"
    by (simp add: findOne_def one_task_db_def task_of_bob_def)
  have l: "req_user ?lost \<noteq> None \<and> req_params_id ?lost \<noteq> [] \<and>
      findOne one_task_db (req_params_id ?lost) = None"
    using none by (simp add: request_of_def)
  have e: "CanEdit (actor bob [''user'']) task_of_bob \<in> set (calls (update one_task_db ?own))"
    by (simp add: update_def request_of_def findOne_def one_task_db_def task_of_bob_def
        canEditTask_def hasRole_def isOwner_def actor_def Let_def only_status_def
        truthy_array_def)
  have r: "CanDelete (actor bob [''user'']) task_of_bob \<in> set (calls (remove one_task_db ?own))"
    by (simp add: remove_def request_of_def findOne_def one_task_db_def task_of_bob_def
        canDeleteTask_def hasRole_def isOwner_def actor_def Let_def)
  note w1 = early_rejections [of ?anon one_task_db, THEN conjunct1, THEN mp, OF a]
  note w2 = early_rejections [of ?lost one_task_db, THEN conjunct2, THEN conjunct1, THEN mp,
      OF l, unfolded ids]
  note w3 = early_rejections [of ?own one_task_db "actor bob [''user'']" task_of_bob,
      THEN conjunct2, THEN conjunct2, THEN conjunct1, THEN mp, OF e, unfolded ids]
  show ?thesis
    by (intro conjI a none e r w1 [THEN conjunct1] w1 [THEN conjunct2]
        w2 [THEN conjunct1] w2 [THEN conjunct2] w3 [THEN conjunct1] w3 [THEN conjunct2])
qed

section \<open>Properties of \<^verbatim>\<open>list\<close>\<close>

subsection \<open>Numbers\<close>

text \<open>
  \<open>halvings\<close> is unfolded one step at a time, and only where the comparison is decided.
  Integers below \<open>2^53\<close> in absolute value are doubles, so rounding leaves them alone;
  this covers a page number and a page size whose product is below \<open>2^53\<close>.
\<close>

lemma halvings_small: "n < 2 ^ 53 \<Longrightarrow> halvings n = 0"
  by (simp add: halvings.simps)

lemma halvings_large: "\<not> n < 2 ^ 53 \<Longrightarrow> halvings n = Suc (halvings (n div 2))"
  by (subst halvings.simps) simp

lemmas parse_defs = parseInt_def is_space_def digit_of_def round_double_def
  halvings_small halvings_large Let_def

lemma round_double_exact:
  assumes "\<bar>n\<bar> < 2 ^ 53"
  shows "round_double n = Finite n"
proof -
  define m where "m = nat \<bar>n\<bar>"
  have small: "m < 2 ^ 53"
    using assms by (simp add: m_def nat_less_iff)
  then have h: "halvings m = 0"
    by (rule halvings_small)
  have "(2 :: nat) ^ 53 \<le> 2 ^ 1024"
    by (rule power_increasing) simp_all
  with small have fits: "\<not> (2 :: nat) ^ 1024 \<le> m"
    by linarith
  have "round_double n = Finite (if n < 0 then - int m else int m)"
    unfolding round_double_def Let_def m_def [symmetric] h using fits by simp
  moreover have "(if n < 0 then - int m else int m) = n"
    by (simp add: m_def)
  ultimately show ?thesis by simp
qed

lemma ceil_div_ceiling:
  "ceil_div a b = \<lceil>real_of_int a / real_of_int b\<rceil>"
proof -
  have "\<lceil>real_of_int a / real_of_int b\<rceil> = - \<lfloor>real_of_int (- a) / real_of_int b\<rfloor>"
    by (simp add: ceiling_def)
  also have "\<dots> = - ((- a) div b)"
    by (simp only: floor_divide_of_int_eq)
  finally show ?thesis by (simp add: ceil_div_def)
qed

lemma valid_offset:
  fixes p l :: int
  assumes "1 \<le> p" and "1 \<le> l" and "p * l < 2 ^ 53"
  shows "0 \<le> (p - 1) * l" and "(p - 1) * l < 2 ^ 53" and "p < 2 ^ 53" and "l < 2 ^ 53"
proof -
  show nonneg: "0 \<le> (p - 1) * l"
    using assms by simp
  have "(p - 1) * l = p * l - l"
    by (simp add: algebra_simps)
  then show "(p - 1) * l < 2 ^ 53"
    using assms by linarith
  have "p * 1 \<le> p * l"
    using assms by (intro mult_left_mono) simp_all
  then have "p \<le> p * l"
    by (simp only: mult_1_right)
  then show "p < 2 ^ 53"
    using assms(3) by linarith
  have "1 * l \<le> p * l"
    using assms by (intro mult_right_mono) simp_all
  then have "l \<le> p * l"
    by (simp only: mult_1_left)
  then show "l < 2 ^ 53"
    using assms(3) by linarith
qed

subsection \<open>The builder\<close>

text \<open>
  \<^verbatim>\<open>skip\<close> and \<^verbatim>\<open>take\<close> leave the clause and the order of the query alone, and the order
  the handler gives the builder is the order the request asks for.
\<close>

lemma paging_fields [simp]:
  "wheres (take_qb n (skip_qb m qb)) = wheres qb"
  "orderField (take_qb n (skip_qb m qb)) = orderField qb"
  "orderDir (take_qb n (skip_qb m qb)) = orderDir qb"
  "skip_n (take_qb n (skip_qb m qb)) = m"
  "take_n (take_qb n (skip_qb m qb)) = n"
  by (simp_all add: take_qb_def skip_qb_def)

lemma select_task_paging [simp]:
  "select_task e (take_qb n (skip_qb m qb)) = select_task e qb"
  by (simp add: select_task_def fun_eq_iff)

lemma selected_paging [simp]:
  "selected e (take_qb n (skip_qb m qb)) d = selected e qb d"
  by (simp add: selected_def)

lemma task_le_paging [simp]:
  "task_le e (take_qb n (skip_qb m qb)) = task_le e qb"
  by (simp add: task_le_def fun_eq_iff)

lemma paged_le_paging [simp]:
  "paged_le e (take_qb n (skip_qb m qb)) = paged_le e qb"
  by (simp add: paged_le_def fun_eq_iff)

lemma in_order_paging [simp]:
  "in_order e (take_qb n (skip_qb m qb)) rows = in_order e qb rows"
  by (simp add: in_order_def)

lemma order_of_list_query:
  "orderField (list_query q) =
     (if q_sortBy q = Some ''title'' then ''task.title'' else ''task.createdAt'')"
  "orderDir (list_query q) = (if q_sortOrder q = Some ''ASC'' then ''ASC'' else ''DESC'')"
  by (cases "q_sortBy q"; cases "q_sortOrder q";
      simp add: list_query_def or_default_def Let_def orderBy_def)+

lemma task_le_list_query: "task_le e (list_query q) = requested_le e q"
  by (simp add: fun_eq_iff task_le_def requested_le_def order_of_list_query)

lemma paged_le_list_query: "paged_le e (list_query q) = listing_le e q"
  by (simp add: fun_eq_iff paged_le_def listing_le_def task_le_list_query)

subsection \<open>Sorting\<close>

text \<open>
  The sort keeps the rows it is given, and its result is in order whenever the
  comparison is total and transitive. Comparing by creation time always is; comparing by
  title is when the collation is; the comparison that breaks ties by key is when the
  order of keys is, too.
\<close>

lemma length_insert_by [simp]: "length (insert_by le x xs) = Suc (length xs)"
  by (induction xs) auto

lemma length_sort_by [simp]: "length (sort_by le xs) = length xs"
  by (induction xs) auto

lemma mset_insert_by [simp]: "mset (insert_by le x xs) = add_mset x (mset xs)"
  by (induction xs) auto

lemma mset_sort_by [simp]: "mset (sort_by le xs) = mset xs"
  by (induction xs) auto

lemma set_insert_by [simp]: "set (insert_by le x xs) = insert x (set xs)"
  by (induction xs) auto

lemma set_sort_by [simp]: "set (sort_by le xs) = set xs"
  by (induction xs) auto

lemma sorted_insert_by:
  assumes "total_preorder le" and "sorted_wrt le xs"
  shows "sorted_wrt le (insert_by le x xs)"
  using assms(2)
proof (induction xs)
  case Nil
  then show ?case by simp
next
  case (Cons y ys)
  show ?case
  proof (cases "le x y")
    case True
    moreover have "le x z" if "z \<in> set ys" for z
      using True Cons.prems that assms(1) unfolding total_preorder_def by auto
    ultimately show ?thesis
      using Cons.prems by auto
  next
    case False
    then have "le y x"
      using assms(1) unfolding total_preorder_def by blast
    then show ?thesis
      using Cons False by auto
  qed
qed

lemma sorted_sort_by:
  assumes "total_preorder le"
  shows "sorted_wrt le (sort_by le xs)"
  by (induction xs) (simp_all add: sorted_insert_by [OF assms])

lemma total_preorder_requested_le:
  assumes "q_sortBy q \<noteq> Some ''title'' \<or> total_preorder (collate_le e)"
  shows "total_preorder (requested_le e q)"
  using assms unfolding total_preorder_def requested_le_def
  by (auto split: if_splits)

lemma total_preorder_listing_le:
  assumes r: "total_preorder (requested_le e q)" and k: "total_preorder (key_le e)"
  shows "total_preorder (listing_le e q)"
proof -
  have rt: "requested_le e q x y \<or> requested_le e q y x" for x y
    using r unfolding total_preorder_def by blast
  have rr: "requested_le e q x z" if "requested_le e q x y" "requested_le e q y z" for x y z
    using r that unfolding total_preorder_def by blast
  have kt: "key_le e a b \<or> key_le e b a" for a b
    using k unfolding total_preorder_def by blast
  have kk: "key_le e a c" if "key_le e a b" "key_le e b c" for a b c
    using k that unfolding total_preorder_def by blast
  have total: "listing_le e q x y \<or> listing_le e q y x" for x y
    using rt [of x y] kt [of "id_task x" "id_task y"] by (auto simp: listing_le_def)
  have trans: "listing_le e q x z" if xy: "listing_le e q x y" and yz: "listing_le e q y z"
    for x y z
  proof -
    from xy have 1: "requested_le e q x y"
      using rt [of x y] by (auto simp: listing_le_def split: if_splits)
    from yz have 2: "requested_le e q y z"
      using rt [of y z] by (auto simp: listing_le_def split: if_splits)
    have 3: "requested_le e q x z"
      using 1 2 by (rule rr)
    show ?thesis
    proof (cases "requested_le e q z x")
      case False
      then show ?thesis
        using 3 by (simp add: listing_le_def)
    next
      case True
      have "requested_le e q y x"
        using 2 True by (rule rr)
      then have a: "key_le e (id_task x) (id_task y)"
        using xy 1 by (simp add: listing_le_def)
      have "requested_le e q z y"
        using True 1 by (rule rr)
      then have b: "key_le e (id_task y) (id_task z)"
        using yz 2 by (simp add: listing_le_def)
      show ?thesis
        using True 3 kk [OF a b] by (simp add: listing_le_def)
    qed
  qed
  show ?thesis
    unfolding total_preorder_def using total trans by blast
qed

lemma codes_le_total: "codes_le x y \<or> codes_le y x"
  by (induction x y rule: codes_le.induct) (auto simp: neq_iff [symmetric])

lemma codes_le_trans: "codes_le x y \<Longrightarrow> codes_le y z \<Longrightarrow> codes_le x z"
proof (induction x y arbitrary: z rule: codes_le.induct)
  case (1 ys)
  then show ?case by simp
next
  case (2 x xs)
  then show ?case by simp
next
  case (3 x xs y ys)
  then show ?case
    by (cases z) (auto split: if_splits)
qed

lemma total_preorder_codes_le: "total_preorder codes_le"
  unfolding total_preorder_def using codes_le_total codes_le_trans by blast

subsection \<open>The clause each branch builds\<close>

text \<open>
  With a search term the clause reads
  \<^verbatim>\<open>title LIKE s OR description LIKE s AND status IN (..) AND assignees.id = a\<close>:
  the status and assignee conditions are attached to the description alone, and a row
  whose title matches passes whatever its status and assignee. Without a search term the
  clause is the conjunction of the conditions present.
\<close>

lemma where_clause_with_search:
  assumes "or_default (q_search q) [] \<noteq> []"
  shows "eval_where h (wheres (list_query q)) True \<longleftrightarrow>
     h (TitleLike (''%'' @ or_default (q_search q) [] @ ''%'')) \<or>
     (h (DescriptionLike (''%'' @ or_default (q_search q) [] @ ''%'')) \<and>
      (truthy_qvalue (q_status q) \<longrightarrow> h (StatusIn (statusArray (q_status q)))) \<and>
      (truthy_string (q_assigneeId q) \<longrightarrow> h (AssigneeIdEq (or_default (q_assigneeId q) []))))"
  using assms
  by (auto simp: list_query_def Let_def where_qb_def andWhere_def orderBy_def
      createQueryBuilder_def)

lemma where_clause_without_search:
  assumes "or_default (q_search q) [] = []"
  shows "eval_where h (wheres (list_query q)) True \<longleftrightarrow>
      (truthy_qvalue (q_status q) \<longrightarrow> h (StatusIn (statusArray (q_status q)))) \<and>
      (truthy_string (q_assigneeId q) \<longrightarrow> h (AssigneeIdEq (or_default (q_assigneeId q) [])))"
  using assms
  by (auto simp: list_query_def Let_def where_qb_def andWhere_def orderBy_def
      createQueryBuilder_def)

lemma map_filter_Some: "List.map_filter Some xs = xs"
  by (induction xs) (simp_all add: List.map_filter_simps)

lemma map_filter_id_Some: "List.map_filter (\<lambda>a. a) (map Some xs) = xs"
  by (induction xs) (simp_all add: List.map_filter_simps)

lemma map_filter_if:
  "List.map_filter (\<lambda>x. if P x then Some (g x) else None) xs = map g (filter P xs)"
  by (induction xs) (simp_all add: List.map_filter_simps)

lemma joined_rows_assignees: "List.map_filter (\<lambda>a. a) (joined_rows row) = assignees row"
  by (simp add: joined_rows_def map_filter_id_Some List.map_filter_simps)

lemma select_task_constant:
  assumes "\<And>a. eval_where (holds e row a) (wheres qb) True = c"
  shows "select_task e qb row = (if c then Some row else None)"
proof -
  have "filter (\<lambda>a. eval_where (holds e row a) (wheres qb) True) (joined_rows row) =
      (if c then joined_rows row else [])"
    using assms by simp
  moreover have "joined_rows row \<noteq> []"
    by (simp add: joined_rows_def)
  ultimately show ?thesis
    unfolding select_task_def Let_def by (simp add: joined_rows_assignees)
qed

lemma select_task_by_assignee:
  assumes "\<And>a. eval_where (holds e row a) (wheres qb) True =
      (c \<and> (case a of None \<Rightarrow> False | Some u \<Rightarrow> id_user u = uid))"
  shows "select_task e qb row =
     (if c \<and> uid \<in> id_user ` set (assignees row)
      then Some (row\<lparr>assignees := filter (\<lambda>u. id_user u = uid) (assignees row)\<rparr>)
      else None)"
proof (cases "assignees row = []")
  case True
  then show ?thesis
    using assms by (simp add: select_task_def joined_rows_def)
next
  case False
  have passed: "filter (\<lambda>a. eval_where (holds e row a) (wheres qb) True) (joined_rows row) =
      (if c then map Some (filter (\<lambda>u. id_user u = uid) (assignees row)) else [])"
    using False assms by (simp add: joined_rows_def filter_map comp_def)
  have "filter (\<lambda>u. id_user u = uid) (assignees row) = [] \<longleftrightarrow>
      uid \<notin> id_user ` set (assignees row)"
    by (auto simp: filter_empty_conv)
  then show ?thesis
    unfolding select_task_def Let_def passed by (simp add: map_filter_id_Some)
qed

lemma select_task_matches:
  assumes "\<not> (search_given q \<and> (status_given q \<or> assignee_given q))"
  shows "select_task e (list_query q) row =
     (if matches_filters e q row then Some (as_returned q row) else None)"
proof (cases "search_given q")
  case True
  with assms have none: "\<not> status_given q" "\<not> assignee_given q"
    by simp_all
  have "eval_where (holds e row a) (wheres (list_query q)) True = search_hit e q row" for a
    using True none
    by (simp add: where_clause_with_search search_given_def status_given_def
        assignee_given_def search_hit_def cong: option.case_cong)
  then have "select_task e (list_query q) row = (if search_hit e q row then Some row else None)"
    by (rule select_task_constant)
  then show ?thesis
    using True none by (simp add: matches_filters_def as_returned_def)
next
  case nosearch: False
  then have empty: "or_default (q_search q) [] = []"
    by (simp add: search_given_def)
  show ?thesis
  proof (cases "assignee_given q")
    case False
    have "eval_where (holds e row a) (wheres (list_query q)) True =
        (status_given q \<longrightarrow> status row \<in> set (statusArray (q_status q)))" for a
      using False
      by (simp add: where_clause_without_search [OF empty] status_given_def
          assignee_given_def includes_arr_set)
    then have "select_task e (list_query q) row =
        (if status_given q \<longrightarrow> status row \<in> set (statusArray (q_status q))
         then Some row else None)"
      by (rule select_task_constant)
    then show ?thesis
      using False nosearch by (simp add: matches_filters_def as_returned_def)
  next
    case True
    have "eval_where (holds e row a) (wheres (list_query q)) True =
        ((status_given q \<longrightarrow> status row \<in> set (statusArray (q_status q))) \<and>
         (case a of None \<Rightarrow> False | Some u \<Rightarrow> id_user u = or_default (q_assigneeId q) []))" for a
      using True
      by (cases a)
        (simp_all add: where_clause_without_search [OF empty] status_given_def
          assignee_given_def includes_arr_set)
    then have "select_task e (list_query q) row =
        (if (status_given q \<longrightarrow> status row \<in> set (statusArray (q_status q))) \<and>
            or_default (q_assigneeId q) [] \<in> id_user ` set (assignees row)
         then Some (row\<lparr>assignees :=
                filter (\<lambda>u. id_user u = or_default (q_assigneeId q) []) (assignees row)\<rparr>)
         else None)"
      by (rule select_task_by_assignee)
    then show ?thesis
      using True nosearch by (simp add: matches_filters_def as_returned_def)
  qed
qed

lemma selected_matching:
  assumes "\<not> (search_given q \<and> (status_given q \<or> assignee_given q))"
  shows "selected e (list_query q) d = matching_tasks e d q"
proof -
  have "select_task e (list_query q) =
      (\<lambda>row. if matches_filters e q row then Some (as_returned q row) else None)"
    by (rule ext) (rule select_task_matches [OF assms])
  then show ?thesis
    by (simp add: selected_def matching_tasks_def map_filter_if)
qed

text \<open>
  On the tasks themselves: as long as a search term is not combined with another
  filter, the query selects exactly the matching tasks, each as it is returned. In
  particular, without a search term every task selected has its status among those asked
  for and the assignee asked for among its assignees. With a search term a task whose
  title matches is selected without regard to the other filters.
\<close>

lemma title_match_is_selected:
  assumes search: "search_given q"
    and row: "row \<in> set (taskRepository d)"
    and hit: "like e (''%'' @ or_default (q_search q) [] @ ''%'') (title row)"
  shows "row \<in> set (selected e (list_query q) d)"
proof -
  have "eval_where (holds e row a) (wheres (list_query q)) True = True" for a
    using hit search by (simp add: where_clause_with_search search_given_def)
  then have "select_task e (list_query q) row = (if True then Some row else None)"
    by (rule select_task_constant)
  then show ?thesis
    using row by (force simp: selected_def List.map_filter_def)
qed

lemma filters_conjunctive_without_search:
  assumes "\<not> search_given q" and "tsk \<in> set (selected e (list_query q) d)"
  shows "(status_given q \<longrightarrow> status tsk \<in> set (statusArray (q_status q))) \<and>
         (assignee_given q \<longrightarrow>
            or_default (q_assigneeId q) [] \<in> id_user ` set (assignees tsk))"
proof -
  from assms obtain row where row: "matches_filters e q row" "tsk = as_returned q row"
    by (auto simp: selected_matching matching_tasks_def)
  then show ?thesis
    by (auto simp: matches_filters_def as_returned_def)
qed

subsection \<open>Evaluating the handler\<close>

lemmas list_defs = list_def list_query_def no_filters_def or_default_def
  truthy_qvalue_def truthy_string_def statusArray_def
  where_qb_def andWhere_def orderBy_def createQueryBuilder_def take_qb_def skip_qb_def
  getManyAndCount_def selected_def select_task_def joined_rows_def in_order_def
  paging_def paged_le_def task_le_def minus_one_def js_times_def
  List.map_filter_simps sample_engine_def ceil_div_def ceil_quotient_def failed_to_fetch_def

text \<open>
  Claim C3 (all present filters are applied conjunctively; in particular a search term
  together with an assignee gives the intersection). The handler does not do this when
  a search term is present. Asked for \<^verbatim>\<open>search=foo&status=done&assigneeId=u-ann\<close> on a
  table whose only task is titled \<^verbatim>\<open>foo\<close>, has status \<^verbatim>\<open>todo\<close> and is assigned to Bob
  alone, it returns that task and counts one match.
\<close>

theorem search_overrides_other_filters:
  "list sample_engine foo_db
     (no_filters\<lparr>q_search := Some ''foo'', q_status := Some (Single ''done''),
        q_assigneeId := Some ''u-ann''\<rparr>) =
     Response 200
       (TaskPage [foo_task] \<lparr>page = 1, limit = 10, total = 1, totalPages = Some 1\<rparr>) \<and>
   status foo_task = ''todo'' \<and> map id_user (assignees foo_task) = [''u-bob'']"
  by (simp add: list_defs parse_defs foo_db_def foo_task_def bob_def)

subsection \<open>Pages\<close>

lemma slice_as_interval:
  "take n (drop m xs) = map ((!) xs) [m ..< min (m + n) (length xs)]"
proof (rule nth_equalityI)
  show "length (take n (drop m xs)) = length (map ((!) xs) [m ..< min (m + n) (length xs)])"
    by auto
next
  fix i
  assume "i < length (take n (drop m xs))"
  then have i: "i < n" "m + i < length xs"
    by auto
  then have "i < min (m + n) (length xs) - m" "m + i < min (m + n) (length xs)"
    by auto
  then have "map ((!) xs) [m ..< min (m + n) (length xs)] ! i = xs ! (m + i)"
    by simp
  moreover have "take n (drop m xs) ! i = xs ! (m + i)"
    using i by simp
  ultimately show "take n (drop m xs) ! i = map ((!) xs) [m ..< min (m + n) (length xs)] ! i"
    by simp
qed

lemma list_valid_paging:
  assumes "parseInt (or_default (q_page q) ''1'') = Finite p" and "1 \<le> p"
    and "parseInt (or_default (q_limit q) ''10'') = Finite l" and "1 \<le> l"
    and "p * l < 2 ^ 53"
  shows "list e d q =
     Response 200
       (TaskPage
          (in_order e (list_query q)
             (take (nat l) (drop (nat ((p - 1) * l))
                (sort_by (paged_le e (list_query q)) (selected e (list_query q) d)))))
          \<lparr>page = p, limit = l, total = int (length (selected e (list_query q) d)),
           totalPages = Some (ceil_div (int (length (selected e (list_query q) d))) l)\<rparr>)"
proof -
  note b = valid_offset [OF assms(2,4,5)]
  have "\<bar>p - 1\<bar> < 2 ^ 53"
    using assms(2) b(3) by linarith
  then have m: "minus_one (Finite p) = Finite (p - 1)"
    by (simp add: minus_one_def round_double_exact)
  have "\<bar>(p - 1) * l\<bar> < 2 ^ 53"
    using b(1,2) by linarith
  then have t: "js_times (Finite (p - 1)) (Finite l) = Finite ((p - 1) * l)"
    by (simp add: js_times_def round_double_exact)
  have "(2 :: int) ^ 53 \<le> 2 ^ 63"
    by simp
  then have "\<not> 2 ^ 63 \<le> l" "\<not> 2 ^ 63 \<le> (p - 1) * l"
    using b(2,4) by linarith+
  then have pg: "paging e l ((p - 1) * l) = Some (Some (nat l), nat ((p - 1) * l))"
    using assms(4) b(1) by (simp add: paging_def)
  have nz: "l \<noteq> 0"
    using assms(4) by simp
  show ?thesis
    unfolding list_def Let_def assms(1,3) m t
    by (simp add: getManyAndCount_def pg nz ceil_quotient_def Let_def)
qed

lemma matching_no_filters:
  assumes "\<not> search_given q" "\<not> status_given q" "\<not> assignee_given q"
  shows "matching_tasks e d q = taskRepository d"
proof -
  have "matches_filters e q = (\<lambda>row. True)" "as_returned q = (\<lambda>row. row)"
    using assms by (simp_all add: fun_eq_iff matches_filters_def as_returned_def)
  then show ?thesis
    by (simp add: matching_tasks_def)
qed

text \<open>
  Claim C6, as it stands, promises a page for every positive page number and page size.
  The handler validates neither, and a page size that the database cannot take as a row
  count is answered with an error: \<^verbatim>\<open>limit=99999999999999999999999\<close>, read as the double
  next to it, makes the query fail and the answer 500.
\<close>

theorem huge_limit_is_answered_500:
  "parseInt ''99999999999999999999999'' = Finite 99999999999999991611392 \<and>
   list sample_engine three_dates_db (no_filters\<lparr>q_limit := Some ''99999999999999999999999''\<rparr>) =
     Response 500 (Message ''Failed to fetch tasks'')"
  by (simp add: list_defs parse_defs three_dates_db_def dated_task_def bob_def)

text \<open>
  Claim C6, amended. Let the page number and the page size parse to integers \<open>p \<ge> 1\<close> and
  \<open>l \<ge> 1\<close> with \<open>p * l < 2^53\<close>, let the request not combine a search term with a status
  or an assignee filter, and let the database order texts and keys totally and
  transitively and hand the rows it sorts out as it got them, in some order. Then the
  handler answers 200 with
  \<^item> \<open>total\<close> the number of matching tasks, before slicing,
  \<^item> \<open>totalPages\<close> the ceiling of \<open>total / l\<close>,
  \<^item> the tasks at the positions from \<open>(p - 1) * l\<close> up to, not including, \<open>p * l\<close> of
    the sorted matching sequence (as far as it reaches), listed in the order asked for;
    the sorted matching sequence is the matching tasks in that order, equal keys by
    ascending identifier, whereas the order of equal keys within the page is the
    database's.

  A page that starts beyond the last match is empty, and still a 200. With 25 matches
  and pages of 10 there are 3 pages, the third has 5 tasks and the fourth none.
\<close>

theorem list_page_slice:
  assumes page: "parseInt (or_default (q_page q) ''1'') = Finite p" "1 \<le> p"
    and limit: "parseInt (or_default (q_limit q) ''10'') = Finite l" "1 \<le> l"
    and safe: "p * l < 2 ^ 53"
    and plain: "\<not> (search_given q \<and> (status_given q \<or> assignee_given q))"
    and rows: "\<And>xs. mset (row_order e xs) = mset xs"
    and texts: "q_sortBy q \<noteq> Some ''title'' \<or> total_preorder (collate_le e)"
    and keys: "total_preorder (key_le e)"
  shows "\<exists>ts. list e d q =
        Response 200 (TaskPage ts
          \<lparr>page = p, limit = l, total = int (length (matching_tasks e d q)),
           totalPages = Some \<lceil>real (length (matching_tasks e d q)) / real_of_int l\<rceil>\<rparr>) \<and>
      mset ts = mset (map ((!) (sorted_matching e d q))
        [nat ((p - 1) * l) ..< min (nat (p * l)) (length (sorted_matching e d q))]) \<and>
      sorted_wrt (requested_le e q) ts \<and>
      sorted_wrt (listing_le e q) (sorted_matching e d q) \<and>
      mset (sorted_matching e d q) = mset (matching_tasks e d q) \<and>
      (length (matching_tasks e d q) \<le> nat ((p - 1) * l) \<longrightarrow> ts = []) \<and>
      (l = 10 \<and> length (matching_tasks e d q) = 25 \<longrightarrow>
         \<lceil>real (length (matching_tasks e d q)) / real_of_int l\<rceil> = 3 \<and>
         (p = 3 \<longrightarrow> length ts = 5) \<and> (p = 4 \<longrightarrow> ts = []))"
proof -
  define M where "M = matching_tasks e d q"
  define S where "S = sorted_matching e d q"
  define cut where "cut = take (nat l) (drop (nat ((p - 1) * l)) S)"
  define ts where "ts = in_order e (list_query q) cut"
  have sel: "selected e (list_query q) d = M"
    by (simp add: M_def selected_matching [OF plain])
  have S: "sort_by (paged_le e (list_query q)) M = S"
    by (simp add: S_def M_def sorted_matching_def paged_le_list_query)
  have len: "length S = length M"
    by (simp add: S_def M_def sorted_matching_def)
  have answer: "list e d q = Response 200 (TaskPage ts
       \<lparr>page = p, limit = l, total = int (length M),
        totalPages = Some \<lceil>real (length M) / real_of_int l\<rceil>\<rparr>)"
    using list_valid_paging [OF page limit safe, of e d]
    by (simp add: sel S ts_def cut_def ceil_div_ceiling)
  have "nat ((p - 1) * l) + nat l = nat (p * l)"
    using page(2) limit(2) by (simp add: nat_add_distrib [symmetric] algebra_simps)
  then have interval:
    "cut = map ((!) S) [nat ((p - 1) * l) ..< min (nat (p * l)) (length S)]"
    by (simp add: cut_def slice_as_interval)
  have mset_ts: "mset ts = mset cut"
    by (simp add: ts_def in_order_def rows)
  then have length_ts: "length ts = length cut"
    by (rule mset_eq_length)
  have requested: "total_preorder (requested_le e q)"
    using texts by (rule total_preorder_requested_le)
  then have ordered: "sorted_wrt (requested_le e q) ts"
    by (simp add: ts_def in_order_def task_le_list_query sorted_sort_by)
  have listing: "sorted_wrt (listing_le e q) S"
    unfolding S_def sorted_matching_def
    by (rule sorted_sort_by) (rule total_preorder_listing_le [OF requested keys])
  have same: "mset S = mset M"
    by (simp add: S_def M_def sorted_matching_def)
  have beyond: "ts = []" if "length M \<le> nat ((p - 1) * l)"
    using that len length_ts by (simp add: cut_def)
  have example: "\<lceil>real (length M) / real_of_int l\<rceil> = 3 \<and>
      (p = 3 \<longrightarrow> length ts = 5) \<and> (p = 4 \<longrightarrow> ts = [])"
    if "l = 10 \<and> length M = 25"
  proof -
    have "ceil_div 25 10 = 3"
      by (simp add: ceil_div_def)
    then have "\<lceil>real (length M) / real_of_int l\<rceil> = 3"
      using that by (simp add: ceil_div_ceiling [symmetric])
    moreover have "length ts = 5" if "p = 3"
      using that \<open>l = 10 \<and> length M = 25\<close> len length_ts by (simp add: cut_def)
    moreover have "ts = []" if "p = 4"
      using that \<open>l = 10 \<and> length M = 25\<close> beyond by simp
    ultimately show ?thesis by blast
  qed
  show ?thesis
    using answer interval mset_ts ordered listing same beyond example
    unfolding M_def [symmetric] S_def [symmetric]
    by (intro exI [of _ ts]) simp
qed

theorem list_page_slice_witness:
  "parseInt (or_default (q_page third_page) ''1'') = Finite 3 \<and>
   parseInt (or_default (q_limit third_page) ''10'') = Finite 10 \<and>
   parseInt (or_default (q_page fourth_page) ''1'') = Finite 4 \<and>
   parseInt (or_default (q_limit fourth_page) ''10'') = Finite 10 \<and>
   (3 :: int) * 10 < 2 ^ 53 \<and> (4 :: int) * 10 < 2 ^ 53 \<and>
   \<not> (search_given third_page \<and> (status_given third_page \<or> assignee_given third_page)) \<and>
   \<not> (search_given fourth_page \<and> (status_given fourth_page \<or> assignee_given fourth_page)) \<and>
   (\<forall>xs. mset (row_order sample_engine xs) = mset xs) \<and>
   q_sortBy third_page \<noteq> Some ''title'' \<and> q_sortBy fourth_page \<noteq> Some ''title'' \<and>
   total_preorder (key_le sample_engine) \<and>
   length (matching_tasks sample_engine db25 third_page) = 25 \<and>
   length (matching_tasks sample_engine db25 fourth_page) = 25 \<and>
   (\<exists>ts. list sample_engine db25 third_page =
      Response 200 (TaskPage ts \<lparr>page = 3, limit = 10, total = 25, totalPages = Some 3\<rparr>) \<and>
      length ts = 5 \<and> sorted_wrt (requested_le sample_engine third_page) ts) \<and>
   list sample_engine db25 fourth_page =
      Response 200 (TaskPage [] \<lparr>page = 4, limit = 10, total = 25, totalPages = Some 3\<rparr>)"
proof -
  have p3: "parseInt (or_default (q_page third_page) ''1'') = Finite 3"
    and l3: "parseInt (or_default (q_limit third_page) ''10'') = Finite 10"
    and p4: "parseInt (or_default (q_page fourth_page) ''1'') = Finite 4"
    and l4: "parseInt (or_default (q_limit fourth_page) ''10'') = Finite 10"
    by (simp_all add: third_page_def fourth_page_def no_filters_def or_default_def parse_defs)
  have s3: "(3 :: int) * 10 < 2 ^ 53" and s4: "(4 :: int) * 10 < 2 ^ 53"
    by simp_all
  have none3: "\<not> search_given third_page" "\<not> status_given third_page"
      "\<not> assignee_given third_page"
    and none4: "\<not> search_given fourth_page" "\<not> status_given fourth_page"
      "\<not> assignee_given fourth_page"
    by (simp_all add: third_page_def fourth_page_def no_filters_def search_given_def
        status_given_def assignee_given_def or_default_def truthy_qvalue_def truthy_string_def)
  have plain3: "\<not> (search_given third_page \<and> (status_given third_page \<or> assignee_given third_page))"
    and plain4: "\<not> (search_given fourth_page \<and> (status_given fourth_page \<or> assignee_given fourth_page))"
    using none3 none4 by simp_all
  have rows: "mset (row_order sample_engine xs) = mset xs" for xs
    by (simp add: sample_engine_def)
  have k3: "q_sortBy third_page \<noteq> Some ''title''" and k4: "q_sortBy fourth_page \<noteq> Some ''title''"
    by (simp_all add: third_page_def fourth_page_def no_filters_def)
  have keys: "total_preorder (key_le sample_engine)"
    by (simp add: sample_engine_def total_preorder_codes_le)
  have n3: "length (matching_tasks sample_engine db25 third_page) = 25"
    and n4: "length (matching_tasks sample_engine db25 fourth_page) = 25"
    by (simp_all add: matching_no_filters none3 none4 db25_def)
  obtain ts3 where ts3:
    "list sample_engine db25 third_page =
       Response 200 (TaskPage ts3
         \<lparr>page = 3, limit = 10, total = int (length (matching_tasks sample_engine db25 third_page)),
          totalPages = Some \<lceil>real (length (matching_tasks sample_engine db25 third_page)) /
            real_of_int 10\<rceil>\<rparr>)"
    "sorted_wrt (requested_le sample_engine third_page) ts3"
    "(10 :: int) = 10 \<and> length (matching_tasks sample_engine db25 third_page) = 25 \<longrightarrow>
       \<lceil>real (length (matching_tasks sample_engine db25 third_page)) / real_of_int 10\<rceil> = 3 \<and>
       ((3 :: int) = 3 \<longrightarrow> length ts3 = 5) \<and> ((3 :: int) = 4 \<longrightarrow> ts3 = [])"
    using list_page_slice [OF p3 _ l3 _ s3 plain3 rows disjI1 [OF k3] keys, of db25] by auto
  obtain ts4 where ts4:
    "list sample_engine db25 fourth_page =
       Response 200 (TaskPage ts4
         \<lparr>page = 4, limit = 10, total = int (length (matching_tasks sample_engine db25 fourth_page)),
          totalPages = Some \<lceil>real (length (matching_tasks sample_engine db25 fourth_page)) /
            real_of_int 10\<rceil>\<rparr>)"
    "(10 :: int) = 10 \<and> length (matching_tasks sample_engine db25 fourth_page) = 25 \<longrightarrow>
       \<lceil>real (length (matching_tasks sample_engine db25 fourth_page)) / real_of_int 10\<rceil> = 3 \<and>
       ((4 :: int) = 3 \<longrightarrow> length ts4 = 5) \<and> ((4 :: int) = 4 \<longrightarrow> ts4 = [])"
    using list_page_slice [OF p4 _ l4 _ s4 plain4 rows disjI1 [OF k4] keys, of db25] by auto
  from ts3 n3 have third: "list sample_engine db25 third_page =
      Response 200 (TaskPage ts3 \<lparr>page = 3, limit = 10, total = 25, totalPages = Some 3\<rparr>)"
    "length ts3 = 5"
    by simp_all
  from ts4 n4 have fourth: "list sample_engine db25 fourth_page =
      Response 200 (TaskPage [] \<lparr>page = 4, limit = 10, total = 25, totalPages = Some 3\<rparr>)"
    by simp
  from third ts3(2) have ex: "\<exists>ts. list sample_engine db25 third_page =
      Response 200 (TaskPage ts \<lparr>page = 3, limit = 10, total = 25, totalPages = Some 3\<rparr>) \<and>
      length ts = 5 \<and> sorted_wrt (requested_le sample_engine third_page) ts"
    by blast
  have rows': "\<forall>xs. mset (row_order sample_engine xs) = mset xs"
    using rows by blast
  show ?thesis
    by (intro conjI p3 l3 p4 l4 s3 s4 plain3 plain4 rows' k3 k4 keys n3 n4 ex fourth)
qed

subsection \<open>Sort parameters\<close>

text \<open>
  Whatever the handler answers, the tasks in its answer are a sorted list in the order
  asked for, and the status is 200 or 500.
\<close>

lemma tasks_of_list:
  "\<exists>rows. tasks_of (list e d q) = sort_by (requested_le e q) rows"
proof (cases "\<exists>ts pg. list e d q = Response 200 (TaskPage ts pg)")
  case False
  then have "tasks_of (list e d q) = []"
    by (auto simp: list_def Let_def tasks_of_def failed_to_fetch_def
        split: number.splits option.splits)
  then have "tasks_of (list e d q) = sort_by (requested_le e q) []"
    by simp
  then show ?thesis ..
next
  case True
  then show ?thesis
    by (auto simp: list_def Let_def tasks_of_def failed_to_fetch_def getManyAndCount_def
        in_order_def task_le_list_query split: number.splits option.splits if_splits)
qed

lemma status_of_list: "statusCode (list e d q) = 200 \<or> statusCode (list e d q) = 500"
  by (simp add: list_def Let_def failed_to_fetch_def split: number.splits option.splits)

lemma tasks_of_list_sorted:
  assumes "q_sortBy q \<noteq> Some ''title'' \<or> total_preorder (collate_le e)"
  shows "sorted_wrt (requested_le e q) (tasks_of (list e d q))"
proof -
  obtain rows where "tasks_of (list e d q) = sort_by (requested_le e q) rows"
    using tasks_of_list by blast
  then show ?thesis
    by (simp add: sorted_sort_by total_preorder_requested_le [OF assms])
qed

lemma list_cong:
  assumes "list_query q = list_query q'" "q_page q' = q_page q" "q_limit q' = q_limit q"
  shows "list e d q = list e d q'"
  by (simp only: list_def assms)

text \<open>
  Claim C10. A \<^verbatim>\<open>sortBy\<close> other than \<^verbatim>\<open>title\<close> sorts by the creation time: the order
  column of the query is \<^verbatim>\<open>task.createdAt\<close>, the answer is that of the request with
  \<^verbatim>\<open>createdAt\<close> in its place, and the tasks returned are in the order of their
  creation times (ascending under \<^verbatim>\<open>ASC\<close>, descending otherwise). A \<^verbatim>\<open>sortOrder\<close> other
  than \<^verbatim>\<open>ASC\<close> sorts descending: the direction of the query is \<^verbatim>\<open>DESC\<close>, the answer is
  that of the request with \<^verbatim>\<open>DESC\<close> in its place, and the tasks returned are in descending
  order of the key (of the title, for a total and transitive collation). No request to
  \<^verbatim>\<open>list\<close> is answered with a validation error: the status is 200 or 500.
\<close>

theorem unknown_sort_parameters_fall_back:
  "(q_sortBy q \<noteq> Some ''title'' \<longrightarrow>
      orderField (list_query q) = ''task.createdAt'' \<and>
      list e d q = list e d (q\<lparr>q_sortBy := Some ''createdAt''\<rparr>) \<and>
      (q_sortOrder q = Some ''ASC'' \<longrightarrow>
         sorted_wrt (\<lambda>x y. createdAt x \<le> createdAt y) (tasks_of (list e d q)))) \<and>
   (q_sortOrder q \<noteq> Some ''ASC'' \<longrightarrow>
      orderDir (list_query q) = ''DESC'' \<and>
      list e d q = list e d (q\<lparr>q_sortOrder := Some ''DESC''\<rparr>) \<and>
      (q_sortBy q \<noteq> Some ''title'' \<longrightarrow>
         sorted_wrt (\<lambda>x y. createdAt y \<le> createdAt x) (tasks_of (list e d q))) \<and>
      (q_sortBy q = Some ''title'' \<and> total_preorder (collate_le e) \<longrightarrow>
         sorted_wrt (\<lambda>x y. collate_le e (title y) (title x)) (tasks_of (list e d q)))) \<and>
   (statusCode (list e d q) = 200 \<or> statusCode (list e d q) = 500)"
proof -
  have by_field: "list_query q = list_query (q\<lparr>q_sortBy := Some ''createdAt''\<rparr>)"
    if "q_sortBy q \<noteq> Some ''title''"
    using that
    by (cases "q_sortBy q") (simp_all add: list_query_def or_default_def Let_def orderBy_def)
  have by_dir: "list_query q = list_query (q\<lparr>q_sortOrder := Some ''DESC''\<rparr>)"
    if "q_sortOrder q \<noteq> Some ''ASC''"
    using that
    by (cases "q_sortOrder q") (simp_all add: list_query_def or_default_def Let_def orderBy_def)
  have same_field: "list e d q = list e d (q\<lparr>q_sortBy := Some ''createdAt''\<rparr>)"
    if "q_sortBy q \<noteq> Some ''title''"
    using by_field [OF that] by (rule list_cong) simp_all
  have same_dir: "list e d q = list e d (q\<lparr>q_sortOrder := Some ''DESC''\<rparr>)"
    if "q_sortOrder q \<noteq> Some ''ASC''"
    using by_dir [OF that] by (rule list_cong) simp_all
  have asc: "sorted_wrt (\<lambda>x y. createdAt x \<le> createdAt y) (tasks_of (list e d q))"
    if "q_sortBy q \<noteq> Some ''title''" "q_sortOrder q = Some ''ASC''"
  proof -
    have "requested_le e q = (\<lambda>x y. createdAt x \<le> createdAt y)"
      using that by (simp add: requested_le_def fun_eq_iff)
    then show ?thesis
      using tasks_of_list_sorted [of q e d] that(1) by simp
  qed
  have desc: "sorted_wrt (\<lambda>x y. createdAt y \<le> createdAt x) (tasks_of (list e d q))"
    if "q_sortBy q \<noteq> Some ''title''" "q_sortOrder q \<noteq> Some ''ASC''"
  proof -
    have "requested_le e q = (\<lambda>x y. createdAt y \<le> createdAt x)"
      using that by (simp add: requested_le_def fun_eq_iff)
    then show ?thesis
      using tasks_of_list_sorted [of q e d] that(1) by simp
  qed
  have desc_title: "sorted_wrt (\<lambda>x y. collate_le e (title y) (title x)) (tasks_of (list e d q))"
    if "q_sortBy q = Some ''title''" "total_preorder (collate_le e)"
      "q_sortOrder q \<noteq> Some ''ASC''"
  proof -
    have "requested_le e q = (\<lambda>x y. collate_le e (title y) (title x))"
      using that by (simp add: requested_le_def fun_eq_iff)
    then show ?thesis
      using tasks_of_list_sorted [of q e d] that(2) by simp
  qed
  show ?thesis
    using same_field same_dir asc desc desc_title status_of_list [of e d q]
    by (simp add: order_of_list_query)
qed

theorem unknown_sort_parameters_fall_back_witness:
  "map createdAt (taskRepository three_dates_db) = [1000, 3000, 2000] \<and>
   map title (taskRepository three_dates_db) = [''b'', ''a'', ''c''] \<and>
   (q_sortBy odd_sort \<noteq> Some ''title'' \<and> q_sortOrder odd_sort \<noteq> Some ''ASC'' \<and>
    list sample_engine three_dates_db odd_sort =
      Response 200
        (TaskPage [dated_task ''a'' 3000, dated_task ''c'' 2000, dated_task ''b'' 1000]
           \<lparr>page = 1, limit = 10, total = 3, totalPages = Some 1\<rparr>) \<and>
    sorted_wrt (\<lambda>x y. createdAt y \<le> createdAt x)
      (tasks_of (list sample_engine three_dates_db odd_sort)) \<and>
    orderField (list_query odd_sort) = ''task.createdAt'' \<and>
    orderDir (list_query odd_sort) = ''DESC'' \<and>
    list sample_engine three_dates_db odd_sort =
      list sample_engine three_dates_db (odd_sort\<lparr>q_sortBy := Some ''createdAt''\<rparr>) \<and>
    list sample_engine three_dates_db odd_sort =
      list sample_engine three_dates_db (odd_sort\<lparr>q_sortOrder := Some ''DESC''\<rparr>) \<and>
    (statusCode (list sample_engine three_dates_db odd_sort) = 200 \<or>
     statusCode (list sample_engine three_dates_db odd_sort) = 500)) \<and>
   (q_sortBy odd_field \<noteq> Some ''title'' \<and> q_sortOrder odd_field = Some ''ASC'' \<and>
    list sample_engine three_dates_db odd_field =
      Response 200
        (TaskPage [dated_task ''b'' 1000, dated_task ''c'' 2000, dated_task ''a'' 3000]
           \<lparr>page = 1, limit = 10, total = 3, totalPages = Some 1\<rparr>) \<and>
    sorted_wrt (\<lambda>x y. createdAt x \<le> createdAt y)
      (tasks_of (list sample_engine three_dates_db odd_field))) \<and>
   (q_sortOrder odd_direction \<noteq> Some ''ASC'' \<and> q_sortBy odd_direction = Some ''title'' \<and>
    total_preorder (collate_le sample_engine) \<and>
    list sample_engine three_dates_db odd_direction =
      Response 200
        (TaskPage [dated_task ''c'' 2000, dated_task ''b'' 1000, dated_task ''a'' 3000]
           \<lparr>page = 1, limit = 10, total = 3, totalPages = Some 1\<rparr>) \<and>
    sorted_wrt (\<lambda>x y. collate_le sample_engine (title y) (title x))
      (tasks_of (list sample_engine three_dates_db odd_direction)))"
proof -
  have table: "map createdAt (taskRepository three_dates_db) = [1000, 3000, 2000]"
    "map title (taskRepository three_dates_db) = [''b'', ''a'', ''c'']"
    by (simp_all add: three_dates_db_def dated_task_def)
  have f: "q_sortBy odd_sort \<noteq> Some ''title''" and o: "q_sortOrder odd_sort \<noteq> Some ''ASC''"
    and f': "q_sortBy odd_field \<noteq> Some ''title''" and o': "q_sortOrder odd_field = Some ''ASC''"
    and f'': "q_sortBy odd_direction = Some ''title''"
    and o'': "q_sortOrder odd_direction \<noteq> Some ''ASC''"
    by (simp_all add: odd_sort_def odd_field_def odd_direction_def)
  have texts: "total_preorder (collate_le sample_engine)"
    by (simp add: sample_engine_def total_preorder_codes_le)
  have run: "list sample_engine three_dates_db odd_sort =
     Response 200
       (TaskPage [dated_task ''a'' 3000, dated_task ''c'' 2000, dated_task ''b'' 1000]
          \<lparr>page = 1, limit = 10, total = 3, totalPages = Some 1\<rparr>)"
    by (simp add: list_defs parse_defs three_dates_db_def odd_sort_def dated_task_def bob_def)
  have run': "list sample_engine three_dates_db odd_field =
     Response 200
       (TaskPage [dated_task ''b'' 1000, dated_task ''c'' 2000, dated_task ''a'' 3000]
          \<lparr>page = 1, limit = 10, total = 3, totalPages = Some 1\<rparr>)"
    by (simp add: list_defs parse_defs three_dates_db_def odd_field_def dated_task_def bob_def)
  have run'': "list sample_engine three_dates_db odd_direction =
     Response 200
       (TaskPage [dated_task ''c'' 2000, dated_task ''b'' 1000, dated_task ''a'' 3000]
          \<lparr>page = 1, limit = 10, total = 3, totalPages = Some 1\<rparr>)"
    by (simp add: list_defs parse_defs three_dates_db_def odd_direction_def dated_task_def
        bob_def)
  note T = unknown_sort_parameters_fall_back [of odd_sort sample_engine three_dates_db]
  note by_field = T [THEN conjunct1, THEN mp, OF f]
  note by_dir = T [THEN conjunct2, THEN conjunct1, THEN mp, OF o]
  note code = T [THEN conjunct2, THEN conjunct2]
  note desc = by_dir [THEN conjunct2, THEN conjunct2, THEN conjunct1, THEN mp, OF f]
  note asc = unknown_sort_parameters_fall_back [of odd_field sample_engine three_dates_db,
      THEN conjunct1, THEN mp, OF f', THEN conjunct2, THEN conjunct2, THEN mp, OF o']
  note desc_title = unknown_sort_parameters_fall_back
      [of odd_direction sample_engine three_dates_db,
       THEN conjunct2, THEN conjunct1, THEN mp, OF o'', THEN conjunct2, THEN conjunct2,
       THEN conjunct2, THEN mp, OF conjI [OF f'' texts]]
  show ?thesis
    by (intro conjI table f o run desc by_field [THEN conjunct1] by_dir [THEN conjunct1]
        by_field [THEN conjunct2, THEN conjunct1] by_dir [THEN conjunct2, THEN conjunct1] code
        f' o' run' asc o'' f'' texts run'' desc_title)
qed

end
